theory Spec2Isabelle
  imports Main "HOL-Library.AList" "HOL-Library.Sublist"
begin

section \<open>Python values\<close>

text \<open>
  The store keeps dynamically typed values. The values that reach it are JSON scalars:
  \<^verbatim>\<open>None\<close>, integers and strings. Comparing a non-integer with an episode number
  raises \<^verbatim>\<open>TypeError\<close> in Python 3.
\<close>

datatype pyval = PNone | PInt int | PStr string

datatype py_error = TypeError

type_synonym 'a result = "py_error + 'a"

definition digit_char :: "nat \<Rightarrow> char" where
  "digit_char d = char_of (48 + d)"

function str_nat :: "nat \<Rightarrow> string" where
  "str_nat n = (if n < 10 then [digit_char n] else str_nat (n div 10) @ [digit_char (n mod 10)])"
  by pat_completeness auto
termination
  by (relation "measure (\<lambda>n. n)") auto

declare str_nat.simps [simp del]

text \<open>\<^verbatim>\<open>str(i)\<close> for an integer.\<close>

definition str_int :: "int \<Rightarrow> string" where
  "str_int i = (if i < 0 then CHR ''-'' # str_nat (nat (- i)) else str_nat (nat i))"

text \<open>What an f-string prints for a value: \<^verbatim>\<open>f"{v}"\<close>.\<close>

fun py_str :: "pyval \<Rightarrow> string" where
  "py_str PNone = ''None''"
| "py_str (PInt i) = str_int i"
| "py_str (PStr s) = s"

text \<open>\<^verbatim>\<open>v < n\<close> for an integer \<open>n\<close>.\<close>

fun py_lt :: "pyval \<Rightarrow> int \<Rightarrow> bool result" where
  "py_lt (PInt i) n = Inr (i < n)"
| "py_lt PNone n = Inl TypeError"
| "py_lt (PStr s) n = Inl TypeError"

text \<open>\<^verbatim>\<open>sep.join(xs)\<close>.\<close>

fun join :: "string \<Rightarrow> string list \<Rightarrow> string" where
  "join sep [] = []"
| "join sep [x] = x"
| "join sep (x # y # ys) = x @ sep @ join sep (y # ys)"

text \<open>\<^verbatim>\<open>xs[-n:]\<close> for a positive \<open>n\<close>.\<close>

definition last_n :: "nat \<Rightarrow> 'a list \<Rightarrow> 'a list" where
  "last_n n xs = drop (length xs - n) xs"

section \<open>The continuity store (core/memory\_manager.py)\<close>

text \<open>
  \<^verbatim>\<open>{"episode": ..., "change": ...}\<close>, an element of a character's
  \<^verbatim>\<open>state_history\<close>.
\<close>

record state_entry =
  episode :: pyval
  change :: pyval

record character =
  name :: pyval
  first_appearance :: pyval
  state_history :: "state_entry list"

text \<open>
  \<^verbatim>\<open>{"episode": ..., "status": ...}\<close>, an element of a plot point's
  \<^verbatim>\<open>status_history\<close>; the fields are the dictionary keys \<^verbatim>\<open>episode\<close> and
  \<^verbatim>\<open>status\<close>.
\<close>

record status_entry =
  status_episode :: pyval
  status_value :: pyval

text \<open>A plot point; \<open>plot_id\<close> is the dictionary key \<^verbatim>\<open>id\<close>.\<close>

record plot_point =
  plot_id :: int
  summary :: pyval
  status :: pyval
  episode_added :: pyval
  status_history :: "status_entry list"

text \<open>
  The three files under \<^verbatim>\<open>db_path\<close>. A file is missing, or holds a JSON document, or
  holds something \<^verbatim>\<open>json.load\<close> raises on. A JSON object is the list of its members in
  file order; its keys are strings. The documents are those of the shape the manager
  writes: an object of characters, an object of plot points, and the counter.
\<close>

datatype 'a json_file = Missing | Unreadable | Document 'a

record disk =
  characters_json :: "(string \<times> character) list json_file"
  plots_json :: "(string \<times> plot_point) list json_file"
  counter_json :: "int json_file"

text \<open>
  A chunk in the vector store. Of its metadata the fields are
  \<^verbatim>\<open>metadata.get('episode')\<close>, \<^verbatim>\<open>metadata['chunk_index']\<close> (\<open>None\<close> when the key is
  absent) and \<^verbatim>\<open>metadata['type']\<close>.
\<close>

record document =
  page_content :: string
  doc_episode :: "pyval option"
  chunk_index :: "nat option"
  doc_type :: string

text \<open>
  The manager: the two dictionaries in insertion order, the id counter, the directory it
  persists to, and the contents of the vector store (\<open>None\<close> when it is not initialised).
\<close>

record MemoryManager =
  characters :: "(pyval \<times> character) list"
  plot_points :: "(string \<times> plot_point) list"
  plot_counter :: int
  db :: disk
  vector_store :: "document list option"

text \<open>
  Whether the three writes of \<^verbatim>\<open>_save_persistent_data\<close> all complete, or one raises;
  then the exception is logged and the directory is left as the interrupted writes left it.
\<close>

datatype save_outcome = Save_Completes | Save_Raises disk

text \<open>
  The key \<^verbatim>\<open>json.dump\<close> writes for a dictionary key: strings as they are,
  \<^verbatim>\<open>None\<close> as \<^verbatim>\<open>null\<close>, an integer in decimal.
\<close>

fun json_key :: "pyval \<Rightarrow> string" where
  "json_key (PStr s) = s"
| "json_key PNone = ''null''"
| "json_key (PInt i) = str_int i"

definition save_persistent_data :: "save_outcome \<Rightarrow> MemoryManager \<Rightarrow> MemoryManager" where
  "save_persistent_data out mm =
     (case out of
        Save_Completes \<Rightarrow>
          mm\<lparr>db := \<lparr>characters_json = Document (map (\<lambda>(k, c). (json_key k, c)) (characters mm)),
                     plots_json = Document (plot_points mm),
                     counter_json = Document (plot_counter mm)\<rparr>\<rparr>
      | Save_Raises d \<Rightarrow> mm\<lparr>db := d\<rparr>)"

text \<open>
  The dictionary \<^verbatim>\<open>json.load\<close> builds from an object: members are inserted in file
  order, a repeated key keeps its first position and its last value.
\<close>

definition dict_of :: "('k \<times> 'v) list \<Rightarrow> ('k \<times> 'v) list" where
  "dict_of ps = foldl (\<lambda>d (k, v). AList.update k v d) [] ps"

text \<open>
  \<^verbatim>\<open>_load_persistent_data\<close>: each file that exists is loaded in turn; the first
  unreadable one raises, which ends the loading (the exception is logged).
\<close>

definition load_persistent_data :: "MemoryManager \<Rightarrow> MemoryManager" where
  "load_persistent_data mm =
     (case characters_json (db mm) of
        Unreadable \<Rightarrow> mm
      | cf \<Rightarrow>
        let mm1 = (case cf of
                     Document ps \<Rightarrow> mm\<lparr>characters := dict_of (map (\<lambda>(k, c). (PStr k, c)) ps)\<rparr>
                   | _ \<Rightarrow> mm)
        in (case plots_json (db mm) of
              Unreadable \<Rightarrow> mm1
            | pf \<Rightarrow>
              let mm2 = (case pf of Document ps \<Rightarrow> mm1\<lparr>plot_points := dict_of ps\<rparr> | _ \<Rightarrow> mm1)
              in (case counter_json (db mm) of
                    Document n \<Rightarrow> mm2\<lparr>plot_counter := n\<rparr>
                  | _ \<Rightarrow> mm2)))"

text \<open>
  \<^verbatim>\<open>MemoryManager.__init__\<close> on a directory: the vector store as its initialisation
  left it (\<open>None\<close> without an API key or when it raised), empty tables, then the load.
\<close>

definition init_MemoryManager :: "document list option \<Rightarrow> disk \<Rightarrow> MemoryManager" where
  "init_MemoryManager vs d =
     load_persistent_data
       \<lparr>characters = [], plot_points = [], plot_counter = 0, db = d, vector_store = vs\<rparr>"

text \<open>A directory with none of the three files: the persisted state of a new story.\<close>

definition empty_disk :: disk where
  "empty_disk = \<lparr>characters_json = Missing, plots_json = Missing, counter_json = Missing\<rparr>"

definition update_character_state ::
  "save_outcome \<Rightarrow> pyval \<Rightarrow> pyval \<Rightarrow> pyval \<Rightarrow> MemoryManager \<Rightarrow> MemoryManager" where
  "update_character_state out character_name state_change episode_number mm =
     (let c = (case map_of (characters mm) character_name of
                 None \<Rightarrow> \<lparr>name = character_name, first_appearance = episode_number,
                          state_history = []\<rparr>
               | Some c \<Rightarrow> c);
          c' = c\<lparr>state_history :=
                   state_history c @ [\<lparr>episode = episode_number, change = state_change\<rparr>]\<rparr>
      in save_persistent_data out
           (mm\<lparr>characters := AList.update character_name c' (characters mm)\<rparr>))"

definition add_plot_point ::
  "save_outcome \<Rightarrow> pyval \<Rightarrow> pyval \<Rightarrow> pyval \<Rightarrow> MemoryManager \<Rightarrow> int \<times> MemoryManager" where
  "add_plot_point out summ stat ep_added mm =
     (let pid = plot_counter mm + 1;
          p = \<lparr>plot_id = pid, summary = summ, status = stat, episode_added = ep_added,
               status_history = [\<lparr>status_episode = ep_added, status_value = stat\<rparr>]\<rparr>
      in (pid, save_persistent_data out
                 (mm\<lparr>plot_counter := pid,
                     plot_points := AList.update (str_int pid) p (plot_points mm)\<rparr>)))"

definition update_plot_status ::
  "save_outcome \<Rightarrow> int \<Rightarrow> pyval \<Rightarrow> pyval \<Rightarrow> MemoryManager \<Rightarrow> bool \<times> MemoryManager" where
  "update_plot_status out pid new_status episode_number mm =
     (case map_of (plot_points mm) (str_int pid) of
        None \<Rightarrow> (False, mm)
      | Some p \<Rightarrow>
          (True, save_persistent_data out
                   (mm\<lparr>plot_points :=
                         AList.update (str_int pid)
                           (p\<lparr>status := new_status,
                              status_history := status_history p @
                                [\<lparr>status_episode = episode_number, status_value = new_status\<rparr>]\<rparr>)
                           (plot_points mm)\<rparr>)))"

text \<open>A sequence of \<^verbatim>\<open>add_plot_point\<close> calls, returning the ids in call order.\<close>

fun add_plot_points ::
  "(save_outcome \<times> pyval \<times> pyval \<times> pyval) list \<Rightarrow> MemoryManager \<Rightarrow> int list \<times> MemoryManager" where
  "add_plot_points [] mm = ([], mm)"
| "add_plot_points ((out, summ, stat, ep) # cs) mm =
     (let (i, mm') = add_plot_point out summ stat ep mm;
          (ids, mm'') = add_plot_points cs mm'
      in (i # ids, mm''))"

text \<open>Reading a decimal numeral back, the inverse of \<open>str_nat\<close>.\<close>

definition nat_of_digits :: "string \<Rightarrow> nat" where
  "nat_of_digits s = foldl (\<lambda>a c. 10 * a + (of_char c - 48)) 0 s"

text \<open>Two calls, the second with the default \<^verbatim>\<open>episode_added=None\<close> and a failing save.\<close>

definition example_calls :: "(save_outcome \<times> pyval \<times> pyval \<times> pyval) list" where
  "example_calls =
     [(Save_Completes, PStr ''a'', PStr ''introduced'', PInt 1),
      (Save_Raises empty_disk, PStr ''b'', PStr ''planned'', PNone)]"

subsection \<open>Reading the store\<close>

definition bind_result :: "'a result \<Rightarrow> ('a \<Rightarrow> 'b result) \<Rightarrow> 'b result" where
  "bind_result m f = (case m of Inl e \<Rightarrow> Inl e | Inr x \<Rightarrow> f x)"

text \<open>
  \<^verbatim>\<open>[x for x in xs if x.get("episode", float("inf")) < episode_number]\<close>: every entry
  the store builds has the key, so the default is never used; the comparison raises on an
  episode that is not a number.
\<close>

fun filter_lt :: "('a \<Rightarrow> pyval) \<Rightarrow> int \<Rightarrow> 'a list \<Rightarrow> 'a list result" where
  "filter_lt ep n [] = Inr []"
| "filter_lt ep n (x # xs) =
     bind_result (py_lt (ep x) n) (\<lambda>b.
     bind_result (filter_lt ep n xs) (\<lambda>ys. Inr (if b then x # ys else ys)))"

definition nl :: string where
  "nl = [CHR 0x0A]"

text \<open>\<^verbatim>\<open>f"Episode {change['episode']}: {change['change']}"\<close>\<close>

definition state_text :: "state_entry \<Rightarrow> string" where
  "state_text c = ''Episode '' @ py_str (episode c) @ '': '' @ py_str (change c)"

text \<open>\<^verbatim>\<open>f"{char_name}: {states_text}"\<close> for the states shown.\<close>

definition character_text :: "pyval \<times> state_entry list \<Rightarrow> string" where
  "character_text = (\<lambda>(char_name, last_states).
     py_str char_name @ '': '' @ join ''; '' (map state_text last_states))"

text \<open>
  \<^verbatim>\<open>f"Plot: {plot_data.get('summary')} - Status as of Episode {latest_status['episode']}: {latest_status['status']}"\<close>
\<close>

definition plot_text :: "plot_point \<times> status_entry \<Rightarrow> string" where
  "plot_text = (\<lambda>(plot_data, latest_status).
     ''Plot: '' @ py_str (summary plot_data) @ '' - Status as of Episode '' @
     py_str (status_episode latest_status) @ '': '' @ py_str (status_value latest_status))"

text \<open>The first loop of \<^verbatim>\<open>get_context_summary\<close>, over the characters.\<close>

fun character_summary :: "(pyval \<times> character) list \<Rightarrow> int \<Rightarrow> string list result" where
  "character_summary [] episode_number = Inr []"
| "character_summary ((char_name, char_data) # rest) episode_number =
     bind_result (py_lt (first_appearance char_data) episode_number) (\<lambda>appeared.
     bind_result
       (if appeared then
          bind_result (filter_lt episode episode_number (state_history char_data))
            (\<lambda>relevant_history.
               Inr (if relevant_history \<noteq> []
                    then [character_text (char_name, last_n 2 relevant_history)]
                    else []))
        else Inr [])
       (\<lambda>line.
     bind_result (character_summary rest episode_number) (\<lambda>lines. Inr (line @ lines))))"

text \<open>The second loop, over the plot points.\<close>

fun plot_summary :: "(string \<times> plot_point) list \<Rightarrow> int \<Rightarrow> string list result" where
  "plot_summary [] episode_number = Inr []"
| "plot_summary ((pid, plot_data) # rest) episode_number =
     bind_result (py_lt (episode_added plot_data) episode_number) (\<lambda>added.
     bind_result
       (if added then
          bind_result (filter_lt status_episode episode_number (status_history plot_data))
            (\<lambda>relevant_status.
               Inr (if relevant_status \<noteq> []
                    then [plot_text (plot_data, last relevant_status)]
                    else []))
        else Inr [])
       (\<lambda>line.
     bind_result (plot_summary rest episode_number) (\<lambda>lines. Inr (line @ lines))))"

text \<open>The two conditional expressions that combine the summaries.\<close>

definition full_summary :: "string list \<Rightarrow> string list \<Rightarrow> string" where
  "full_summary cs ps =
     (if cs \<noteq> [] then ''CHARACTER CONTEXT:'' @ nl @ join nl cs
      else ''No prior character information.'') @
     (if ps \<noteq> [] then nl @ nl @ ''PLOT CONTEXT:'' @ nl @ join nl ps
      else nl @ nl @ ''No prior plot points.'')"

definition get_context_summary :: "MemoryManager \<Rightarrow> int \<Rightarrow> string result" where
  "get_context_summary mm episode_number =
     bind_result (character_summary (characters mm) episode_number) (\<lambda>cs.
     bind_result (plot_summary (plot_points mm) episode_number) (\<lambda>ps.
     Inr (full_summary cs ps)))"

text \<open>
  \<^verbatim>\<open>get_character_summaries\<close>: every character, its last three state changes, no
  comparison with an episode number.
\<close>

definition character_info_line :: "pyval \<times> character \<Rightarrow> string" where
  "character_info_line = (\<lambda>(char_name, char_data).
     let changes_text = join ''; '' (map state_text (last_n 3 (state_history char_data)))
     in py_str char_name @ '': First appeared in Episode '' @
        py_str (first_appearance char_data) @ ''. '' @
        (if changes_text \<noteq> [] then ''Recent state: '' @ changes_text else []))"

definition get_character_summaries :: "MemoryManager \<Rightarrow> string" where
  "get_character_summaries mm =
     (let summaries = map character_info_line (characters mm)
      in if summaries \<noteq> [] then join nl summaries
         else ''No character information available.'')"

text \<open>
  A store of a story in progress: a planned character with three state changes, a
  character first seen in episode 2, and a plot point whose status entries were appended
  out of episode order (its status of episode 3 was recorded before its status of
  episode 1, as when episode 1 is regenerated after episode 3).
\<close>

definition example_store :: MemoryManager where
  "example_store = \<lparr>characters = [(PStr ''Ann'', \<lparr>name = PStr ''Ann'', first_appearance = PInt 0,
      state_history = [\<lparr>episode = PInt 0, change = PStr ''Description: brave''\<rparr>,
                       \<lparr>episode = PInt 1, change = PStr ''wounded''\<rparr>,
                       \<lparr>episode = PInt 2, change = PStr ''healed''\<rparr>]\<rparr>),
     (PStr ''Bob'', \<lparr>name = PStr ''Bob'', first_appearance = PInt 2,
      state_history = [\<lparr>episode = PInt 2, change = PStr ''arrives''\<rparr>]\<rparr>)],
    plot_points = [(''1'', \<lparr>plot_id = 1, summary = PStr ''quest'', status = PStr ''active'', episode_added = PInt 0,
       status_history = [\<lparr>status_episode = PInt 0, status_value = PStr ''planned''\<rparr>,
           \<lparr>status_episode = PInt 3, status_value = PStr ''resolved''\<rparr>,
          \<lparr>status_episode = PInt 1, status_value = PStr ''active''\<rparr>]\<rparr>)],
    plot_counter = 1, db = empty_disk, vector_store = None\<rparr>"

subsection \<open>What a context summary shows\<close>

text \<open>An episode field that is a number below \<open>n\<close>.\<close>

fun before :: "int \<Rightarrow> pyval \<Rightarrow> bool" where
  "before n (PInt i) = (i < n)"
| "before n PNone = False"
| "before n (PStr s) = False"

text \<open>
  The characters and state entries, and the plot points and status entries, that the
  lines of \<^verbatim>\<open>get_context_summary\<close> are rendered from.
\<close>

definition shown_characters ::
  "int \<Rightarrow> (pyval \<times> character) list \<Rightarrow> (pyval \<times> state_entry list) list" where
  "shown_characters n chars =
     concat (map (\<lambda>(k, c).
       if before n (first_appearance c) \<and>
          filter (\<lambda>e. before n (episode e)) (state_history c) \<noteq> []
       then [(k, last_n 2 (filter (\<lambda>e. before n (episode e)) (state_history c)))]
       else []) chars)"

definition shown_plots ::
  "int \<Rightarrow> (string \<times> plot_point) list \<Rightarrow> (plot_point \<times> status_entry) list" where
  "shown_plots n plots =
     concat (map (\<lambda>(k, p).
       if before n (episode_added p) \<and>
          filter (\<lambda>e. before n (status_episode e)) (status_history p) \<noteq> []
       then [(p, last (filter (\<lambda>e. before n (status_episode e)) (status_history p)))]
       else []) plots)"

text \<open>Every episode field of the store is an integer.\<close>

fun is_int :: "pyval \<Rightarrow> bool" where
  "is_int (PInt i) = True"
| "is_int PNone = False"
| "is_int (PStr s) = False"

definition int_episodes :: "MemoryManager \<Rightarrow> bool" where
  "int_episodes mm =
     (list_all (\<lambda>(k, c). is_int (first_appearance c) \<and>
                  list_all (\<lambda>e. is_int (episode e)) (state_history c)) (characters mm) \<and>
      list_all (\<lambda>(k, p). is_int (episode_added p) \<and>
                  list_all (\<lambda>e. is_int (status_episode e)) (status_history p)) (plot_points mm))"

text \<open>
  The reading of "latest status entry" by the episode field: among the entries with an
  episode below \<open>n\<close>, the one with the greatest episode number (the later one of two
  with the same number).
\<close>

fun episode_num :: "pyval \<Rightarrow> int" where
  "episode_num (PInt i) = i"
| "episode_num PNone = 0"
| "episode_num (PStr s) = 0"

definition latest_of :: "status_entry \<Rightarrow> status_entry list \<Rightarrow> status_entry" where
  "latest_of x xs =
     foldl (\<lambda>best e. if episode_num (status_episode best) \<le> episode_num (status_episode e)
                      then e else best) x xs"

definition latest_by_episode ::
  "int \<Rightarrow> (string \<times> plot_point) list \<Rightarrow> (plot_point \<times> status_entry) list" where
  "latest_by_episode n plots =
     concat (map (\<lambda>(k, p).
       if before n (episode_added p) then
         (case filter (\<lambda>e. before n (status_episode e)) (status_history p) of
            [] \<Rightarrow> []
          | x # xs \<Rightarrow> [(p, latest_of x xs)])
       else []) plots)"

text \<open>The status entries with an episode below \<open>n\<close> were appended in episode order.\<close>

definition appended_in_order :: "int \<Rightarrow> (string \<times> plot_point) list \<Rightarrow> bool" where
  "appended_in_order n plots =
     list_all (\<lambda>(k, p).
       sorted (map (\<lambda>e. episode_num (status_episode e))
                 (filter (\<lambda>e. before n (status_episode e)) (status_history p)))) plots"

text \<open>The mutating operations of the store, and a run of them on one manager.\<close>

datatype store_op =
  Update_Character save_outcome pyval pyval pyval
| Add_Plot save_outcome pyval pyval pyval
| Update_Plot save_outcome int pyval pyval

fun apply_op :: "MemoryManager \<Rightarrow> store_op \<Rightarrow> MemoryManager" where
  "apply_op mm (Update_Character out nm ch ep) = update_character_state out nm ch ep mm"
| "apply_op mm (Add_Plot out summ stat ep) = snd (add_plot_point out summ stat ep mm)"
| "apply_op mm (Update_Plot out pid stat ep) = snd (update_plot_status out pid stat ep mm)"

definition run_ops :: "store_op list \<Rightarrow> MemoryManager \<Rightarrow> MemoryManager" where
  "run_ops ops mm = foldl apply_op mm ops"

text \<open>A dictionary key that is a string.\<close>

fun is_str :: "pyval \<Rightarrow> bool" where
  "is_str (PStr s) = True"
| "is_str PNone = False"
| "is_str (PInt i) = False"

text \<open>
  A store in which one update came without a character name: the extraction left the
  key \<^verbatim>\<open>name\<close> out, so \<^verbatim>\<open>update.get("name")\<close> was \<^verbatim>\<open>None\<close>.
\<close>

definition unnamed_store :: MemoryManager where
  "unnamed_store =
     update_character_state Save_Completes PNone (PStr ''enters'') (PInt 1)
       (init_MemoryManager None empty_disk)"

text \<open>
  The plot point stored under the key of id \<open>c\<close> has \<^verbatim>\<open>episode_added = None\<close>, and the
  counter has reached \<open>c\<close>.
\<close>

definition untyped_plot_at :: "int \<Rightarrow> MemoryManager \<Rightarrow> bool" where
  "untyped_plot_at c mm =
     ((case map_of (plot_points mm) (str_int c) of
         None \<Rightarrow> False
       | Some p \<Rightarrow> episode_added p = PNone) \<and>
      c \<le> plot_counter mm)"

section \<open>The scene loop (core/generator.py)\<close>

definition MAX_SCENES_PER_EPISODE :: nat where
  "MAX_SCENES_PER_EPISODE = 10"

text \<open>
  What one call of \<^verbatim>\<open>_generate_scene\<close> puts into its prompt. The last field is
  \<^verbatim>\<open>previous_scene_summary if scene_number > 1 else 'This is the first scene.'\<close>.
\<close>

record scene_request =
  req_episode_number :: int
  req_scene_number :: nat
  req_episode_summary :: string
  req_context_summary :: string
  req_character_info :: string
  req_relevant_chunks :: string
  req_previous :: string

text \<open>
  The text-completion service as the generator sees it: the content of the reply, or
  \<open>None\<close> when anything in the \<^verbatim>\<open>try\<close> block raises. Within one episode every
  request differs in its scene number, so a function of the request covers every behaviour
  of the service.
\<close>

type_synonym scene_client = "scene_request \<Rightarrow> string option"

text \<open>
  \<^verbatim>\<open>str.strip()\<close>. A character is a code point below 256; of these Python takes as
  whitespace the ASCII ones and U+0085 and U+00A0.
\<close>

definition is_space :: "char \<Rightarrow> bool" where
  "is_space c = ((of_char c :: nat) \<in> {9, 10, 11, 12, 13, 28, 29, 30, 31, 32, 133, 160})"

definition strip :: "string \<Rightarrow> string" where
  "strip s = rev (dropWhile is_space (rev (dropWhile is_space s)))"

definition scene_prompt ::
  "int \<Rightarrow> nat \<Rightarrow> string \<Rightarrow> string \<Rightarrow> string \<Rightarrow> string \<Rightarrow> string \<Rightarrow> scene_request" where
  "scene_prompt episode_number scene_number episode_summary character_info context_summary
     relevant_chunks previous_scene_summary =
     \<lparr>req_episode_number = episode_number, req_scene_number = scene_number,
      req_episode_summary = episode_summary, req_context_summary = context_summary,
      req_character_info = character_info, req_relevant_chunks = relevant_chunks,
      req_previous = (if scene_number > 1 then previous_scene_summary
                      else ''This is the first scene.'')\<rparr>"

text \<open>
  \<^verbatim>\<open>_generate_scene\<close>: the scene, the updated rolling summary, and whether the episode
  is complete. A failed call returns the error sentinel and signals the end.
\<close>

definition generate_scene ::
  "scene_client \<Rightarrow> int \<Rightarrow> nat \<Rightarrow> string \<Rightarrow> string \<Rightarrow> string \<Rightarrow> string \<Rightarrow> string \<Rightarrow>
   string \<times> string \<times> bool" where
  "generate_scene client episode_number scene_number episode_summary character_info
     context_summary relevant_chunks previous_scene_summary =
     (case client (scene_prompt episode_number scene_number episode_summary character_info
                     context_summary relevant_chunks previous_scene_summary) of
        Some content \<Rightarrow>
          let scene_script = strip content
          in (scene_script, previous_scene_summary @ nl @ nl @ scene_script,
              suffix ''# EPISODE END'' scene_script)
      | None \<Rightarrow> (''Error generating Scene '' @ str_nat scene_number, ''Error'', True))"

text \<open>
  The \<^verbatim>\<open>while\<close> loop of \<^verbatim>\<open>generate_episode_script\<close>, from the state of its four
  variables. Besides the list of script parts it returns the requests it sent to the
  service, in order.
\<close>

function scene_loop ::
  "scene_client \<Rightarrow> int \<Rightarrow> string \<Rightarrow> string \<Rightarrow> string \<Rightarrow> string \<Rightarrow>
   string list \<Rightarrow> nat \<Rightarrow> string \<Rightarrow> bool \<Rightarrow> string list \<times> scene_request list" where
  "scene_loop client episode_number episode_summary context_summary character_info
     relevant_chunks full_episode_script scene_number previous_scenes_summary episode_complete =
     (if scene_number \<le> MAX_SCENES_PER_EPISODE \<and> \<not> episode_complete then
        let request = scene_prompt episode_number scene_number episode_summary character_info
                        context_summary relevant_chunks previous_scenes_summary;
            reply = generate_scene client episode_number scene_number episode_summary
                      character_info context_summary relevant_chunks previous_scenes_summary;
            scene_script = fst reply;
            updated_summary = fst (snd reply);
            complete = snd (snd reply)
        in if sublist ''Error generating Scene'' scene_script then
             (full_episode_script @
                [''ERROR GENERATING SCENE '' @ str_nat scene_number @ '': Generation stopped.''],
              [request])
           else
             apsnd ((#) request)
               (scene_loop client episode_number episode_summary context_summary character_info
                  relevant_chunks
                  ((full_episode_script @ [scene_script]) @
                   (if scene_number + 1 > MAX_SCENES_PER_EPISODE \<and> \<not> complete
                    then [''# SCENE LIMIT REACHED - EPISODE INCOMPLETE''] else []))
                  (scene_number + 1) updated_summary complete)
      else (full_episode_script, []))"
  by pat_completeness auto
termination
  by (relation "measure (\<lambda>(client, episode_number, episode_summary, context_summary,
        character_info, relevant_chunks, full_episode_script, scene_number, rest).
        Suc MAX_SCENES_PER_EPISODE - scene_number)") auto

declare scene_loop.simps [simp del]

definition generate_episode_script ::
  "scene_client \<Rightarrow> int \<Rightarrow> string \<Rightarrow> string \<Rightarrow> string \<Rightarrow> string \<Rightarrow>
   string \<times> scene_request list" where
  "generate_episode_script client episode_number episode_summary context_summary character_info
     relevant_chunks =
     (case scene_loop client episode_number episode_summary context_summary character_info
             relevant_chunks [] 1 [] False of
        (full_episode_script, calls) \<Rightarrow> (join (nl @ nl) full_episode_script, calls))"

text \<open>The scene a successful call yields.\<close>

definition scene_of :: "scene_client \<Rightarrow> scene_request \<Rightarrow> string" where
  "scene_of client request = (case client request of Some content \<Rightarrow> strip content | None \<Rightarrow> [])"

text \<open>
  Example services: one that never ends the episode, one that fails at the third scene,
  one that ends the episode with its second scene, and one whose tenth scene, returned
  without failure, contains the text the loop takes for the error sentinel.
\<close>

definition sentinel_client :: scene_client where
  "sentinel_client request =
     (if req_scene_number request = 10 then Some ''NOTE: Error generating Scene data''
      else Some ''INT. ROOM - DAY'')"

definition endless_client :: scene_client where
  "endless_client request = Some ''INT. ROOM - DAY''"

definition failing_client :: scene_client where
  "failing_client request =
     (if req_scene_number request = 3 then None else Some '' EXT. ROAD - NIGHT '')"

definition ending_client :: scene_client where
  "ending_client request =
     (if req_scene_number request = 2 then Some ''FADE OUT. # EPISODE END''
      else Some ''INT. ROOM - DAY'')"

section \<open>Services, refiner, planner and pipeline\<close>

text \<open>What the critique prompt is built from.\<close>

record critique_request =
  crit_episode_number :: int
  crit_episode_summary :: string
  crit_context_summary :: string
  crit_script :: string

text \<open>
  The JSON object the extraction call returns, with \<^verbatim>\<open>.get\<close> applied to its members:
  (\<^verbatim>\<open>name\<close>, \<^verbatim>\<open>state_change\<close>) of each character update, (\<^verbatim>\<open>plot_summary_or_id\<close>,
  \<^verbatim>\<open>new_status\<close>) of each plot update, and the new plot point summaries. A missing key
  is \<open>PNone\<close>. The members are taken to be lists of objects with scalar values, as the
  extraction prompt asks for.
\<close>

record extracted_info =
  character_updates :: "(pyval \<times> pyval) list"
  plot_updates :: "(pyval \<times> pyval) list"
  new_plot_points :: "pyval list"

text \<open>
  The external collaborators, as functions that answer each call. A text-completion call
  answers \<open>None\<close> when its \<^verbatim>\<open>try\<close> block raises (for the extraction also when the reply
  is not JSON or is an empty object). \<open>similarity_search\<close> answers \<open>None\<close> when it raises;
  \<open>add_texts\<close> answers the contents of the store afterwards and whether the call (and the
  \<^verbatim>\<open>persist\<close> after it) returned; \<open>reinitialise\<close> is the store a reinitialisation
  creates, \<open>None\<close> when it raises; \<open>disk_write\<close> is the outcome of the save attempted
  from a given state of the manager.
\<close>

record services =
  scene_service :: scene_client
  critique_service :: "critique_request \<Rightarrow> string option"
  extraction_service :: "int \<Rightarrow> string \<Rightarrow> extracted_info option"
  split_text :: "string \<Rightarrow> string list"
  similarity_search :: "document list \<Rightarrow> string \<Rightarrow> nat \<Rightarrow> document list option"
  add_texts :: "document list \<Rightarrow> document list \<Rightarrow> document list \<times> bool"
  reinitialise :: "document list option"
  disk_write :: "MemoryManager \<Rightarrow> save_outcome"

subsection \<open>The semantic index (core/memory\_manager.py)\<close>

definition source_info :: "document \<Rightarrow> string" where
  "source_info doc =
     ''[From Episode '' @ (case doc_episode doc of None \<Rightarrow> ''unknown'' | Some v \<Rightarrow> py_str v) @
     (case chunk_index doc of None \<Rightarrow> [] | Some j \<Rightarrow> '', Chunk '' @ str_nat j) @ '']''"

definition chunk_text :: "nat \<times> document \<Rightarrow> string" where
  "chunk_text = (\<lambda>(i, doc).
     ''Relevant Context '' @ str_nat (i + 1) @ '' '' @ source_info doc @ '':'' @ nl @
     page_content doc @ nl)"

definition get_relevant_chunks :: "services \<Rightarrow> MemoryManager \<Rightarrow> string \<Rightarrow> nat \<Rightarrow> string" where
  "get_relevant_chunks srv mm query limit =
     (case vector_store mm of
        None \<Rightarrow> ''No vector store available for retrieving relevant content.''
      | Some docs \<Rightarrow>
          (case similarity_search srv docs query limit of
             None \<Rightarrow> ''Error retrieving relevant context.''
           | Some results \<Rightarrow> join nl (map chunk_text (enumerate 0 results))))"

text \<open>
  \<^verbatim>\<open>add_document_chunks\<close>, as \<^verbatim>\<open>store_plan\<close> calls it: one text, with a metadata
  dictionary holding an episode and a type.
\<close>

definition add_document_chunks ::
  "services \<Rightarrow> string \<Rightarrow> pyval \<Rightarrow> string \<Rightarrow> MemoryManager \<Rightarrow> bool \<times> MemoryManager" where
  "add_document_chunks srv text_arg ep typ mm =
     (case vector_store mm of
        None \<Rightarrow> (False, mm)
      | Some docs \<Rightarrow>
          (case add_texts srv docs
                  [\<lparr>page_content = text_arg, doc_episode = Some ep, chunk_index = None,
                    doc_type = typ\<rparr>] of
             (docs', ok) \<Rightarrow> (ok, mm\<lparr>vector_store := Some docs'\<rparr>)))"

definition add_chunks_to_vector_store ::
  "services \<Rightarrow> string list \<Rightarrow> int \<Rightarrow> MemoryManager \<Rightarrow> bool \<times> MemoryManager" where
  "add_chunks_to_vector_store srv chunks episode_number mm =
     (case (case vector_store mm of None \<Rightarrow> reinitialise srv | Some docs \<Rightarrow> Some docs) of
        None \<Rightarrow> (False, mm)
      | Some docs \<Rightarrow>
          let mm' = mm\<lparr>vector_store := Some docs\<rparr>;
              valid_chunks = filter (\<lambda>c. strip c \<noteq> []) chunks
          in if valid_chunks \<noteq> [] then
               (case add_texts srv docs
                       (map (\<lambda>(i, c). \<lparr>page_content = c, doc_episode = Some (PInt episode_number),
                                      chunk_index = Some i, doc_type = ''script_chunk''\<rparr>)
                          (enumerate 0 valid_chunks)) of
                  (docs', ok) \<Rightarrow> (ok, mm'\<lparr>vector_store := Some docs'\<rparr>))
             else (False, mm'))"

subsection \<open>The refiner (core/refiner.py)\<close>

text \<open>\<^verbatim>\<open>critique_episode\<close> returns the pair of the script and the critique text.\<close>

definition critique_episode ::
  "services \<Rightarrow> string \<Rightarrow> int \<Rightarrow> string \<Rightarrow> MemoryManager \<Rightarrow> (string \<times> string) result" where
  "critique_episode srv script_text episode_number episode_summary mm =
     bind_result (get_context_summary mm episode_number) (\<lambda>context_summary.
       Inr (case critique_service srv
                   \<lparr>crit_episode_number = episode_number, crit_episode_summary = episode_summary,
                    crit_context_summary = context_summary, crit_script = script_text\<rparr> of
              Some critique \<Rightarrow> (script_text, critique)
            | None \<Rightarrow> (script_text, ''Error generating critique.'')))"

definition apply_character_updates ::
  "services \<Rightarrow> int \<Rightarrow> (pyval \<times> pyval) list \<Rightarrow> MemoryManager \<Rightarrow> MemoryManager" where
  "apply_character_updates srv episode_number updates mm =
     foldl (\<lambda>m (nm, state_change).
              update_character_state (disk_write srv m) nm state_change (PInt episode_number) m)
       mm updates"

text \<open>Only an integer reference updates a plot point; a summary is logged and dropped.\<close>

definition apply_plot_updates ::
  "services \<Rightarrow> int \<Rightarrow> (pyval \<times> pyval) list \<Rightarrow> MemoryManager \<Rightarrow> MemoryManager" where
  "apply_plot_updates srv episode_number updates mm =
     foldl (\<lambda>m (ref, new_status).
              case ref of
                PInt pid \<Rightarrow>
                  snd (update_plot_status (disk_write srv m) pid new_status (PInt episode_number) m)
              | _ \<Rightarrow> m)
       mm updates"

definition apply_new_plot_points ::
  "services \<Rightarrow> int \<Rightarrow> pyval list \<Rightarrow> MemoryManager \<Rightarrow> MemoryManager" where
  "apply_new_plot_points srv episode_number summaries mm =
     foldl (\<lambda>m summ.
              snd (add_plot_point (disk_write srv m) summ (PStr ''introduced'')
                     (PInt episode_number) m))
       mm summaries"

definition update_memory_from_script ::
  "services \<Rightarrow> string \<Rightarrow> int \<Rightarrow> MemoryManager \<Rightarrow> MemoryManager" where
  "update_memory_from_script srv script_text episode_number mm =
     (let script_chunks = split_text srv script_text;
          script_for_analysis =
            (if script_chunks \<noteq> [] then hd script_chunks else take 4000 script_text);
          mm1 = (case extraction_service srv episode_number script_for_analysis of
                   None \<Rightarrow> mm
                 | Some info \<Rightarrow>
                     apply_new_plot_points srv episode_number (new_plot_points info)
                       (apply_plot_updates srv episode_number (plot_updates info)
                          (apply_character_updates srv episode_number (character_updates info)
                             mm)))
      in snd (add_chunks_to_vector_store srv script_chunks episode_number mm1))"

subsection \<open>The planner's store\_plan (core/planner.py)\<close>

text \<open>
  The plan, a non-empty JSON object, with \<open>None\<close> for a key the object lacks where the
  code supplies a default. Where the code tests \<^verbatim>\<open>if not story_plan\<close>, the absent plan
  \<open>None\<close> of the model stands for both falsy values, \<^verbatim>\<open>None\<close> and the empty object.
\<close>

record plan_character =
  char_name :: "string option"
  description :: "string option"
  motivation :: "string option"

record episode_plan =
  episode_no :: pyval
  episode_goal :: "string option"
  key_points :: "string list"

record story_plan =
  plan_title :: "string option"
  premise :: "string option"
  setting :: "string option"
  plan_characters :: "plan_character list"
  master_outline :: "episode_plan list"

definition get_or :: "string option \<Rightarrow> string \<Rightarrow> string" where
  "get_or v d = (case v of None \<Rightarrow> d | Some s \<Rightarrow> s)"

definition store_character :: "services \<Rightarrow> MemoryManager \<Rightarrow> plan_character \<Rightarrow> MemoryManager" where
  "store_character srv m ch =
     update_character_state (disk_write srv m) (PStr (get_or (char_name ch) ''Unknown''))
       (PStr (''Description: '' @ get_or (description ch) [] @ ''. Motivation: '' @
              get_or (motivation ch) []))
       (PInt 0) m"

definition store_episode :: "services \<Rightarrow> MemoryManager \<Rightarrow> episode_plan \<Rightarrow> MemoryManager" where
  "store_episode srv m ep =
     foldl (\<lambda>m2 point.
              snd (add_plot_point (disk_write srv m2)
                     (PStr (''Episode '' @ py_str (episode_no ep) @ '' key point: '' @ point))
                     (PStr ''planned'') (PInt 0) m2))
       (snd (add_plot_point (disk_write srv m)
               (PStr (''Episode '' @ py_str (episode_no ep) @ '' objective: '' @
                      get_or (episode_goal ep) ''None''))
               (PStr ''planned'') (PInt 0) m))
       (key_points ep)"

definition overview_text :: "story_plan \<Rightarrow> string" where
  "overview_text plan =
     (let indent = replicate 12 CHR '' ''
      in nl @ indent @ ''STORY TITLE: '' @ get_or (plan_title plan) ''Untitled'' @ nl @
         indent @ nl @
         indent @ ''PREMISE: '' @ get_or (premise plan) ''No premise specified'' @ nl @
         indent @ nl @
         indent @ ''SETTING: '' @ get_or (setting plan) ''No setting specified'' @ nl @
         indent)"

text \<open>
  \<^verbatim>\<open>store_plan\<close>; its first branch is \<^verbatim>\<open>if not story_plan\<close>, which returns
  \<^verbatim>\<open>False\<close> and stores nothing.
\<close>

definition store_plan ::
  "services \<Rightarrow> story_plan option \<Rightarrow> MemoryManager \<Rightarrow> bool \<times> MemoryManager" where
  "store_plan srv plan_arg mm =
     (case plan_arg of
        None \<Rightarrow> (False, mm)
      | Some plan \<Rightarrow>
          (True,
           snd (add_document_chunks srv (overview_text plan) (PInt 0) ''story_overview''
                  (foldl (store_episode srv)
                     (foldl (store_character srv) mm (plan_characters plan))
                     (master_outline plan)))))"

subsection \<open>The pipeline (core/pipeline.py)\<close>

text \<open>
  What the variable \<^verbatim>\<open>critique\<close> of \<^verbatim>\<open>generate_episode\<close> holds: a message string on
  the early returns, otherwise the value \<^verbatim>\<open>critique_episode\<close> returned, which is the
  tuple of the script and the critique text.
\<close>

datatype critique_value = Message string | Script_And_Critique string string

record episode_data =
  ep_script :: string
  ep_critique :: critique_value

record StoryPipeline =
  current_plan :: "story_plan option"
  generated_episodes :: "(int \<times> episode_data) list"
  memory :: MemoryManager

text \<open>
  \<^verbatim>\<open>generate_episode\<close>: the returned pair, the scene requests sent, and the pipeline
  afterwards. A \<^verbatim>\<open>TypeError\<close> of \<^verbatim>\<open>get_context_summary\<close> propagates. The first branch
  is \<^verbatim>\<open>if not self.story_plan\<close>: no plan, or an empty one.
\<close>

definition generate_episode ::
  "services \<Rightarrow> int \<Rightarrow> StoryPipeline \<Rightarrow>
   ((string option \<times> critique_value) \<times> scene_request list \<times> StoryPipeline) result" where
  "generate_episode srv episode_number pl =
     (case current_plan pl of
        None \<Rightarrow> Inr ((None, Message ''No story plan exists.''), [], pl)
      | Some plan \<Rightarrow>
          (case find (\<lambda>ep. episode_no ep = PInt episode_number) (master_outline plan) of
             None \<Rightarrow>
               Inr ((None, Message (''Episode '' @ str_int episode_number @
                                     '' not found in story plan.'')), [], pl)
           | Some ep \<Rightarrow>
               let episode_summary = get_or (episode_goal ep) []
               in bind_result (get_context_summary (memory pl) episode_number)
                    (\<lambda>context_summary.
                  let character_info = get_character_summaries (memory pl);
                      relevant_chunks = get_relevant_chunks srv (memory pl) episode_summary 5;
                      generated = generate_episode_script (scene_service srv) episode_number
                                    episode_summary context_summary character_info
                                    relevant_chunks;
                      script_text = fst generated
                  in if script_text = [] \<or> sublist ''Error generating script'' script_text then
                       Inr ((Some script_text,
                             Message ''Generation failed, no critique available.''),
                            snd generated, pl)
                     else
                       bind_result
                         (critique_episode srv script_text episode_number episode_summary
                            (memory pl))
                         (\<lambda>(returned_script, critique_text).
                            Inr ((Some script_text,
                                  Script_And_Critique returned_script critique_text),
                                 snd generated,
                                 pl\<lparr>memory := update_memory_from_script srv script_text
                                                 episode_number (memory pl),
                                    generated_episodes :=
                                      AList.update episode_number
                                        \<lparr>ep_script = script_text,
                                         ep_critique =
                                           Script_And_Critique returned_script critique_text\<rparr>
                                        (generated_episodes pl)\<rparr>)))))"

definition get_episode_data :: "StoryPipeline \<Rightarrow> int \<Rightarrow> episode_data option" where
  "get_episode_data pl episode_number = map_of (generated_episodes pl) episode_number"

text \<open>
  Services that answer every call: two scenes per episode, a fixed critique, no structured
  extraction, one chunk per script, a store that returns its first \<open>k\<close> chunks.
\<close>

definition example_services :: services where
  "example_services =
     \<lparr>scene_service = ending_client,
      critique_service = (\<lambda>request. Some ''Looks good.''),
      extraction_service = (\<lambda>episode_number script_text. None),
      split_text = (\<lambda>script_text. [script_text]),
      similarity_search = (\<lambda>docs query k. Some (take k docs)),
      add_texts = (\<lambda>docs new. (docs @ new, True)),
      reinitialise = Some [],
      disk_write = (\<lambda>mm. Save_Completes)\<rparr>"

text \<open>
  A pipeline in which the episodes have been generated once and episode 1 is about to be
  regenerated: the store holds facts of episodes 2 and 3, the index a chunk of episode 2.
\<close>

definition example_pipeline :: StoryPipeline where
  "example_pipeline =
     \<lparr>current_plan =
        Some \<lparr>plan_title = Some ''The Road'', premise = Some ''Ann leaves.'',
              setting = Some ''A valley'',
              plan_characters =
                [\<lparr>char_name = Some ''Ann'', description = Some ''brave'',
                  motivation = Some ''freedom''\<rparr>],
              master_outline =
                [\<lparr>episode_no = PInt 1, episode_goal = Some ''Ann leaves home'',
                  key_points = [''farewell'']\<rparr>,
                 \<lparr>episode_no = PInt 2, episode_goal = Some ''Ann is hurt and heals'',
                  key_points = []\<rparr>,
                 \<lparr>episode_no = PInt 3, episode_goal = Some ''The quest ends'',
                  key_points = []\<rparr>]\<rparr>,
      generated_episodes =
        [(1, \<lparr>ep_script = ''OLD SCRIPT'',
               ep_critique = Script_And_Critique ''OLD SCRIPT'' ''Minor issues found.''\<rparr>)],
      memory =
        example_store\<lparr>vector_store :=
          Some [\<lparr>page_content = ''Ann is healed.'', doc_episode = Some (PInt 2),
                 chunk_index = Some 0, doc_type = ''script_chunk''\<rparr>]\<rparr>\<rparr>"

section \<open>Decimal rendering is injective\<close>

lemma nat_of_digits_snoc: "nat_of_digits (s @ [c]) = 10 * nat_of_digits s + (of_char c - 48)"
  by (simp add: nat_of_digits_def)

lemma of_char_digit_char: "d < 10 \<Longrightarrow> of_char (digit_char d) - 48 = d"
  by (simp add: digit_char_def)

lemma nat_of_digits_str_nat: "nat_of_digits (str_nat n) = n"
proof (induction n rule: str_nat.induct)
  case (1 n)
  show ?case
  proof (cases "n < 10")
    case True
    then show ?thesis
      using nat_of_digits_snoc [of "[]" "digit_char n"]
      by (simp add: str_nat.simps [of n] of_char_digit_char nat_of_digits_def)
  next
    case False
    then show ?thesis
      using 1 by (simp add: str_nat.simps [of n] nat_of_digits_snoc of_char_digit_char)
  qed
qed

lemma str_nat_inj: "str_nat m = str_nat n \<Longrightarrow> m = n"
  by (metis nat_of_digits_str_nat)

lemma str_int_inj: "0 \<le> i \<Longrightarrow> 0 \<le> j \<Longrightarrow> str_int i = str_int j \<Longrightarrow> i = j"
  by (auto simp: str_int_def dest: str_nat_inj)


section \<open>Plot point ids\<close>

lemma plot_counter_save [simp]: "plot_counter (save_persistent_data out mm) = plot_counter mm"
  by (simp add: save_persistent_data_def split: save_outcome.splits)

lemma plot_points_save [simp]: "plot_points (save_persistent_data out mm) = plot_points mm"
  by (simp add: save_persistent_data_def split: save_outcome.splits)

lemma characters_save [simp]: "characters (save_persistent_data out mm) = characters mm"
  by (simp add: save_persistent_data_def split: save_outcome.splits)

lemma add_plot_point_fst: "fst (add_plot_point out summ stat ep mm) = plot_counter mm + 1"
  by (simp add: add_plot_point_def Let_def)

lemma add_plot_point_counter:
  "plot_counter (snd (add_plot_point out summ stat ep mm)) = plot_counter mm + 1"
  by (simp add: add_plot_point_def Let_def)

lemma add_plot_point_lookup:
  "map_of (plot_points (snd (add_plot_point out summ stat ep mm))) =
   (map_of (plot_points mm))(str_int (plot_counter mm + 1) \<mapsto>
      \<lparr>plot_id = plot_counter mm + 1, summary = summ, status = stat, episode_added = ep,
       status_history = [\<lparr>status_episode = ep, status_value = stat\<rparr>]\<rparr>)"
  by (simp add: add_plot_point_def Let_def update_conv')

lemma add_plot_points_counter:
  "plot_counter (snd (add_plot_points cs mm)) = plot_counter mm + int (length cs)"
proof (induction cs arbitrary: mm)
  case Nil
  show ?case by simp
next
  case (Cons c cs)
  obtain out summ stat ep where c: "c = (out, summ, stat, ep)" by (cases c) auto
  show ?case
    using Cons.IH [of "snd (add_plot_point out summ stat ep mm)"]
    by (simp add: c split_beta add_plot_point_counter)
qed

lemma add_plot_points_ids:
  "fst (add_plot_points cs mm) = map (\<lambda>j. plot_counter mm + 1 + int j) [0..<length cs]"
proof (induction cs arbitrary: mm)
  case Nil
  show ?case by simp
next
  case (Cons c cs)
  obtain out summ stat ep where c: "c = (out, summ, stat, ep)" by (cases c) auto
  have "[0..<length (c # cs)] = 0 # map Suc [0..<length cs]"
    by (simp add: upt_conv_Cons map_Suc_upt del: upt_Suc)
  then have "map (\<lambda>j. plot_counter mm + 1 + int j) [0..<length (c # cs)] =
        (plot_counter mm + 1) # map (\<lambda>j. plot_counter mm + 1 + 1 + int j) [0..<length cs]"
    by (simp add: comp_def add.assoc del: upt_Suc)
  then show ?case
    using Cons.IH [of "snd (add_plot_point out summ stat ep mm)"]
    by (simp add: c split_beta add_plot_point_counter add_plot_point_fst del: upt_Suc)
qed

lemma add_plot_points_keeps:
  "0 \<le> i \<Longrightarrow> i \<le> plot_counter mm \<Longrightarrow> 0 \<le> plot_counter mm \<Longrightarrow>
   map_of (plot_points (snd (add_plot_points cs mm))) (str_int i) =
   map_of (plot_points mm) (str_int i)"
proof (induction cs arbitrary: mm)
  case Nil
  show ?case by simp
next
  case (Cons c cs)
  obtain out summ stat ep where c: "c = (out, summ, stat, ep)" by (cases c) auto
  let ?mm = "snd (add_plot_point out summ stat ep mm)"
  have ne: "str_int i \<noteq> str_int (plot_counter mm + 1)"
    using Cons.prems str_int_inj [of i "plot_counter mm + 1"] by auto
  have "map_of (plot_points (snd (add_plot_points cs ?mm))) (str_int i) =
        map_of (plot_points ?mm) (str_int i)"
    using Cons.prems by (intro Cons.IH) (simp_all add: add_plot_point_counter)
  also have "\<dots> = map_of (plot_points mm) (str_int i)"
    using ne by (simp add: add_plot_point_lookup)
  finally show ?case by (simp add: c split_beta)
qed

lemma add_plot_points_stored:
  "0 \<le> plot_counter mm \<Longrightarrow> j < length cs \<Longrightarrow>
   map_of (plot_points (snd (add_plot_points cs mm))) (str_int (plot_counter mm + 1 + int j)) =
   Some (case cs ! j of (out, summ, stat, ep) \<Rightarrow>
     \<lparr>plot_id = plot_counter mm + 1 + int j, summary = summ, status = stat, episode_added = ep,
      status_history = [\<lparr>status_episode = ep, status_value = stat\<rparr>]\<rparr>)"
proof (induction cs arbitrary: mm j)
  case Nil
  then show ?case by simp
next
  case (Cons c cs)
  obtain out summ stat ep where c: "c = (out, summ, stat, ep)" by (cases c) auto
  let ?mm = "snd (add_plot_point out summ stat ep mm)"
  have cnt: "plot_counter ?mm = plot_counter mm + 1" by (simp add: add_plot_point_counter)
  show ?case
  proof (cases j)
    case 0
    have "map_of (plot_points (snd (add_plot_points cs ?mm))) (str_int (plot_counter mm + 1)) =
          map_of (plot_points ?mm) (str_int (plot_counter mm + 1))"
      using Cons.prems cnt by (intro add_plot_points_keeps) simp_all
    then show ?thesis
      by (simp add: 0 c split_beta add_plot_point_lookup)
  next
    case (Suc k)
    have "map_of (plot_points (snd (add_plot_points cs ?mm))) (str_int (plot_counter ?mm + 1 + int k)) =
          Some (case cs ! k of (out, summ, stat, ep) \<Rightarrow>
            \<lparr>plot_id = plot_counter ?mm + 1 + int k, summary = summ, status = stat,
             episode_added = ep, status_history = [\<lparr>status_episode = ep, status_value = stat\<rparr>]\<rparr>)"
      using Cons.prems Suc cnt by (intro Cons.IH) simp_all
    then show ?thesis
      by (simp add: Suc c split_beta cnt add.assoc)
  qed
qed

lemma init_empty: "init_MemoryManager vs empty_disk =
  \<lparr>characters = [], plot_points = [], plot_counter = 0, db = empty_disk, vector_store = vs\<rparr>"
  by (simp add: init_MemoryManager_def load_persistent_data_def empty_disk_def)

text \<open>
  Claim C3. Starting from a fresh store (no persisted files), any sequence of \<open>k\<close> calls
  to \<^verbatim>\<open>add_plot_point\<close> returns the ids \<open>1, 2, ..., k\<close> in call order, whatever the
  arguments and whether or not the saves succeed, and afterwards the plot point of the
  \<open>j\<close>-th call is stored under the key of its id.
\<close>

theorem add_plot_point_ids_sequential:
  "fst (add_plot_points cs (init_MemoryManager vs empty_disk)) = map int [1..<Suc (length cs)] \<and>
   (\<forall>j < length cs.
      map_of (plot_points (snd (add_plot_points cs (init_MemoryManager vs empty_disk))))
        (str_int (int j + 1)) =
      Some (case cs ! j of (out, summ, stat, ep) \<Rightarrow>
        \<lparr>plot_id = int j + 1, summary = summ, status = stat, episode_added = ep,
         status_history = [\<lparr>status_episode = ep, status_value = stat\<rparr>]\<rparr>))"
proof
  have "[1..<Suc (length cs)] = map Suc [0..<length cs]"
    by (simp add: map_Suc_upt del: upt_Suc)
  then have "map (\<lambda>j. 1 + int j) [0..<length cs] = map int [1..<Suc (length cs)]"
    by (simp add: comp_def del: upt_Suc)
  then show "fst (add_plot_points cs (init_MemoryManager vs empty_disk)) = map int [1..<Suc (length cs)]"
    by (simp add: add_plot_points_ids init_empty del: upt_Suc)
next
  show "\<forall>j < length cs.
      map_of (plot_points (snd (add_plot_points cs (init_MemoryManager vs empty_disk))))
        (str_int (int j + 1)) =
      Some (case cs ! j of (out, summ, stat, ep) \<Rightarrow>
        \<lparr>plot_id = int j + 1, summary = summ, status = stat, episode_added = ep,
         status_history = [\<lparr>status_episode = ep, status_value = stat\<rparr>]\<rparr>)"
    using add_plot_points_stored [of "init_MemoryManager vs empty_disk" _ cs]
    by (simp add: init_empty add.commute)
qed


theorem add_plot_point_ids_sequential_witness:
  "fst (add_plot_points example_calls (init_MemoryManager None empty_disk)) = [1, 2] \<and>
   (1::nat) < length example_calls \<and>
   map_of (plot_points (snd (add_plot_points example_calls (init_MemoryManager None empty_disk))))
     (str_int 2) =
   Some \<lparr>plot_id = 2, summary = PStr ''b'', status = PStr ''planned'', episode_added = PNone,
         status_history = [\<lparr>status_episode = PNone, status_value = PStr ''planned''\<rparr>]\<rparr>"
proof -
  have len: "(1::nat) < length example_calls"
    by (simp add: example_calls_def)
  have upt: "map int [1..<Suc (length example_calls)] = [1, 2]"
    by (simp add: example_calls_def upt_conv_Cons)
  from add_plot_point_ids_sequential [of example_calls None] len upt show ?thesis
    by (auto simp: example_calls_def)
qed

section \<open>Updating a plot point\<close>

lemma str_int_1: "str_int 1 = ''1''" by code_simp
lemma str_int_7: "str_int 7 = ''7''" by code_simp

text \<open>
  Claim C9. \<^verbatim>\<open>update_plot_status\<close> with an id whose key is not in the plot table reports
  failure (returns \<^verbatim>\<open>False\<close>, raises nothing) and leaves the manager, its files
  included, as it was. With a known id it reports success, appends the entry (episode, new
  status) to that plot point's status history and sets its current status; every other plot
  point, the order of the table, the characters and the id counter are unchanged.
\<close>

theorem update_plot_status_spec:
  "(map_of (plot_points mm) (str_int pid) = None \<longrightarrow>
      update_plot_status out pid new_status episode_number mm = (False, mm)) \<and>
   (\<forall>p. map_of (plot_points mm) (str_int pid) = Some p \<longrightarrow>
      fst (update_plot_status out pid new_status episode_number mm) = True \<and>
      map_of (plot_points (snd (update_plot_status out pid new_status episode_number mm)))
        (str_int pid) =
      Some (p\<lparr>status := new_status,
              status_history := status_history p @
                [\<lparr>status_episode = episode_number, status_value = new_status\<rparr>]\<rparr>) \<and>
      (\<forall>k. k \<noteq> str_int pid \<longrightarrow>
         map_of (plot_points (snd (update_plot_status out pid new_status episode_number mm))) k =
         map_of (plot_points mm) k) \<and>
      map fst (plot_points (snd (update_plot_status out pid new_status episode_number mm))) =
        map fst (plot_points mm) \<and>
      characters (snd (update_plot_status out pid new_status episode_number mm)) = characters mm \<and>
      plot_counter (snd (update_plot_status out pid new_status episode_number mm)) =
        plot_counter mm)"
proof (intro conjI allI impI)
  assume "map_of (plot_points mm) (str_int pid) = None"
  then show "update_plot_status out pid new_status episode_number mm = (False, mm)"
    by (simp add: update_plot_status_def)
next
  fix p
  assume p: "map_of (plot_points mm) (str_int pid) = Some p"
  let ?p' = "p\<lparr>status := new_status,
              status_history := status_history p @
                [\<lparr>status_episode = episode_number, status_value = new_status\<rparr>]\<rparr>"
  have eq: "update_plot_status out pid new_status episode_number mm =
        (True, save_persistent_data out
                 (mm\<lparr>plot_points := AList.update (str_int pid) ?p' (plot_points mm)\<rparr>))"
    using p by (simp add: update_plot_status_def)
  show "fst (update_plot_status out pid new_status episode_number mm) = True"
    by (simp add: eq)
  show "map_of (plot_points (snd (update_plot_status out pid new_status episode_number mm)))
        (str_int pid) = Some ?p'"
    by (simp add: eq update_conv')
  show "map_of (plot_points (snd (update_plot_status out pid new_status episode_number mm))) k =
         map_of (plot_points mm) k" if "k \<noteq> str_int pid" for k
    using that by (simp add: eq update_conv')
  have "str_int pid \<in> fst ` set (plot_points mm)"
    using p by (metis map_of_eq_None_iff option.distinct(1))
  then show "map fst (plot_points (snd (update_plot_status out pid new_status episode_number mm))) =
        map fst (plot_points mm)"
    by (simp add: eq update_keys)
  show "characters (snd (update_plot_status out pid new_status episode_number mm)) = characters mm"
    by (simp add: eq)
  show "plot_counter (snd (update_plot_status out pid new_status episode_number mm)) =
        plot_counter mm"
    by (simp add: eq)
qed

theorem update_plot_status_spec_witness:
  "map_of (plot_points example_store) (str_int 7) = None \<and>
   update_plot_status Save_Completes 7 (PStr ''resolved'') (PInt 4) example_store =
     (False, example_store) \<and>
   map_of (plot_points example_store) (str_int 1) \<noteq> None \<and>
   fst (update_plot_status Save_Completes 1 (PStr ''resolved'') (PInt 4) example_store) = True \<and>
   map (\<lambda>p. (status p, status_history p))
     (map snd (plot_points (snd (update_plot_status Save_Completes 1 (PStr ''resolved'') (PInt 4) example_store)))) =
   [(PStr ''resolved'',
     [\<lparr>status_episode = PInt 0, status_value = PStr ''planned''\<rparr>,
      \<lparr>status_episode = PInt 3, status_value = PStr ''resolved''\<rparr>,
      \<lparr>status_episode = PInt 1, status_value = PStr ''active''\<rparr>,
      \<lparr>status_episode = PInt 4, status_value = PStr ''resolved''\<rparr>])]"
proof -
  have a: "map_of (plot_points example_store) (str_int 7) = None"
    by (simp add: example_store_def str_int_7)
  have b: "map_of (plot_points example_store) (str_int 1) =
     Some \<lparr>plot_id = 1, summary = PStr ''quest'', status = PStr ''active'', episode_added = PInt 0,
       status_history = [\<lparr>status_episode = PInt 0, status_value = PStr ''planned''\<rparr>,
           \<lparr>status_episode = PInt 3, status_value = PStr ''resolved''\<rparr>,
          \<lparr>status_episode = PInt 1, status_value = PStr ''active''\<rparr>]\<rparr>"
    by (simp add: example_store_def str_int_1)
  note u7 = update_plot_status_spec [of example_store 7 Save_Completes "PStr ''resolved''" "PInt 4"]
  note u1 = update_plot_status_spec [of example_store 1 Save_Completes "PStr ''resolved''" "PInt 4"]
  have c: "update_plot_status Save_Completes 7 (PStr ''resolved'') (PInt 4) example_store =
     (False, example_store)"
    using u7 a by blast
  have d: "fst (update_plot_status Save_Completes 1 (PStr ''resolved'') (PInt 4) example_store) = True"
    using u1 b by blast
  have e: "map_of (plot_points (snd (update_plot_status Save_Completes 1 (PStr ''resolved'') (PInt 4) example_store))) (str_int 1) =
      Some \<lparr>plot_id = 1, summary = PStr ''quest'', status = PStr ''resolved'', episode_added = PInt 0,
       status_history = [\<lparr>status_episode = PInt 0, status_value = PStr ''planned''\<rparr>,
           \<lparr>status_episode = PInt 3, status_value = PStr ''resolved''\<rparr>,
          \<lparr>status_episode = PInt 1, status_value = PStr ''active''\<rparr>,
          \<lparr>status_episode = PInt 4, status_value = PStr ''resolved''\<rparr>]\<rparr>"
    using u1 b by simp
  have f: "map fst (plot_points (snd (update_plot_status Save_Completes 1 (PStr ''resolved'') (PInt 4) example_store))) = [''1'']"
    using u1 b by (simp add: example_store_def)
  obtain q where q: "plot_points (snd (update_plot_status Save_Completes 1 (PStr ''resolved'') (PInt 4) example_store)) = [(''1'', q)]"
    using f by (auto simp: map_eq_Cons_conv)
  from e q have "q = \<lparr>plot_id = 1, summary = PStr ''quest'', status = PStr ''resolved'', episode_added = PInt 0,
       status_history = [\<lparr>status_episode = PInt 0, status_value = PStr ''planned''\<rparr>,
           \<lparr>status_episode = PInt 3, status_value = PStr ''resolved''\<rparr>,
          \<lparr>status_episode = PInt 1, status_value = PStr ''active''\<rparr>,
          \<lparr>status_episode = PInt 4, status_value = PStr ''resolved''\<rparr>]\<rparr>"
    by (simp add: str_int_1)
  with q a b c d show ?thesis by simp
qed

section \<open>The context summary\<close>

lemma py_lt_Inr: "py_lt v n = Inr b \<Longrightarrow> b = before n v \<and> is_int v"
  by (cases v) auto

lemma py_lt_int: "is_int v \<Longrightarrow> py_lt v n = Inr (before n v)"
  by (cases v) auto

lemma py_lt_Inl: "py_lt v n = Inl e \<Longrightarrow> \<not> is_int v"
  by (cases v) auto

lemma filter_lt_Inr:
  "filter_lt ep n xs = Inr ys \<Longrightarrow> ys = filter (\<lambda>x. before n (ep x)) xs"
proof (induction xs arbitrary: ys)
  case Nil
  then show ?case by simp
next
  case (Cons x xs)
  then show ?case
    by (auto simp: bind_result_def split: sum.splits if_splits dest: py_lt_Inr)
qed

lemma filter_lt_int:
  "list_all (\<lambda>x. is_int (ep x)) xs \<Longrightarrow> filter_lt ep n xs = Inr (filter (\<lambda>x. before n (ep x)) xs)"
  by (induction xs) (auto simp: bind_result_def py_lt_int)

lemma character_summary_Inr:
  "character_summary chars n = Inr ls \<Longrightarrow> ls = map character_text (shown_characters n chars)"
proof (induction chars arbitrary: ls)
  case Nil
  then show ?case by (simp add: shown_characters_def)
next
  case (Cons kc chars)
  obtain k c where kc: "kc = (k, c)" by (cases kc) auto
  from Cons.prems obtain b l ls' where
    b: "py_lt (first_appearance c) n = Inr b" and
    l: "(if b then bind_result (filter_lt episode n (state_history c))
            (\<lambda>rh. Inr (if rh \<noteq> [] then [character_text (k, last_n 2 rh)] else []))
         else Inr []) = Inr l" and
    ls': "character_summary chars n = Inr ls'" and
    ls: "ls = l @ ls'"
    by (auto simp: kc bind_result_def split: sum.splits)
  have b': "b = before n (first_appearance c)" using b by (simp add: py_lt_Inr)
  have "l = map character_text
     (if before n (first_appearance c) \<and>
          filter (\<lambda>e. before n (episode e)) (state_history c) \<noteq> []
       then [(k, last_n 2 (filter (\<lambda>e. before n (episode e)) (state_history c)))]
       else [])"
    using l b' by (auto simp: bind_result_def split: sum.splits if_splits dest!: filter_lt_Inr)
  then show ?case
    using Cons.IH [OF ls'] ls by (simp add: kc shown_characters_def)
qed

lemma plot_summary_Inr:
  "plot_summary plots n = Inr ls \<Longrightarrow> ls = map plot_text (shown_plots n plots)"
proof (induction plots arbitrary: ls)
  case Nil
  then show ?case by (simp add: shown_plots_def)
next
  case (Cons kp plots)
  obtain k p where kp: "kp = (k, p)" by (cases kp) auto
  from Cons.prems obtain b l ls' where
    b: "py_lt (episode_added p) n = Inr b" and
    l: "(if b then bind_result (filter_lt status_episode n (status_history p))
            (\<lambda>rs. Inr (if rs \<noteq> [] then [plot_text (p, last rs)] else []))
         else Inr []) = Inr l" and
    ls': "plot_summary plots n = Inr ls'" and
    ls: "ls = l @ ls'"
    by (auto simp: kp bind_result_def split: sum.splits)
  have b': "b = before n (episode_added p)" using b by (simp add: py_lt_Inr)
  have "l = map plot_text
     (if before n (episode_added p) \<and>
          filter (\<lambda>e. before n (status_episode e)) (status_history p) \<noteq> []
       then [(p, last (filter (\<lambda>e. before n (status_episode e)) (status_history p)))]
       else [])"
    using l b' by (auto simp: bind_result_def split: sum.splits if_splits dest!: filter_lt_Inr)
  then show ?case
    using Cons.IH [OF ls'] ls by (simp add: kp shown_plots_def)
qed

lemma get_context_summary_Inr:
  "get_context_summary mm n = Inr res \<Longrightarrow>
   res = full_summary (map character_text (shown_characters n (characters mm)))
                      (map plot_text (shown_plots n (plot_points mm)))"
  by (auto simp: get_context_summary_def bind_result_def split: sum.splits
           dest!: character_summary_Inr plot_summary_Inr)

lemma character_summary_total:
  "list_all (\<lambda>(k, c). is_int (first_appearance c) \<and>
                  list_all (\<lambda>e. is_int (episode e)) (state_history c)) chars \<Longrightarrow>
   \<exists>ls. character_summary chars n = Inr ls"
  by (induction chars) (auto simp: bind_result_def py_lt_int filter_lt_int)

lemma plot_summary_total:
  "list_all (\<lambda>(k, p). is_int (episode_added p) \<and>
                  list_all (\<lambda>e. is_int (status_episode e)) (status_history p)) plots \<Longrightarrow>
   \<exists>ls. plot_summary plots n = Inr ls"
  by (induction plots) (auto simp: bind_result_def py_lt_int filter_lt_int)

lemma get_context_summary_total:
  "int_episodes mm \<Longrightarrow> \<exists>res. get_context_summary mm n = Inr res"
  using character_summary_total [of "characters mm" n] plot_summary_total [of "plot_points mm" n]
  by (auto simp: int_episodes_def get_context_summary_def bind_result_def)

lemma before_iff: "before n v \<longleftrightarrow> (\<exists>i. v = PInt i \<and> i < n)"
  by (cases v) auto

lemma set_last_n: "set (last_n m xs) \<subseteq> set xs"
  by (simp add: last_n_def set_drop_subset)

lemma last_n_nonempty: "xs \<noteq> [] \<Longrightarrow> 0 < m \<Longrightarrow> last_n m xs \<noteq> []"
  by (cases xs) (auto simp: last_n_def)

lemma shown_characters_sound:
  "(k, es) \<in> set (shown_characters n chars) \<Longrightarrow>
   \<exists>c. (k, c) \<in> set chars \<and> before n (first_appearance c) \<and> es \<noteq> [] \<and>
       (\<forall>e \<in> set es. e \<in> set (state_history c) \<and> before n (episode e))"
proof -
  assume "(k, es) \<in> set (shown_characters n chars)"
  then obtain c where c: "(k, c) \<in> set chars" "before n (first_appearance c)"
      "filter (\<lambda>e. before n (episode e)) (state_history c) \<noteq> []"
      "es = last_n 2 (filter (\<lambda>e. before n (episode e)) (state_history c))"
    by (auto simp: shown_characters_def split: if_splits)
  have "set es \<subseteq> set (filter (\<lambda>e. before n (episode e)) (state_history c))"
    using c(4) set_last_n by metis
  moreover have "es \<noteq> []" using c(3,4) by (simp add: last_n_nonempty)
  ultimately show ?thesis using c(1,2) by auto
qed

lemma shown_plots_sound:
  "(p, e) \<in> set (shown_plots n plots) \<Longrightarrow>
   (\<exists>k. (k, p) \<in> set plots) \<and> before n (episode_added p) \<and>
   e \<in> set (status_history p) \<and> before n (status_episode e)"
proof -
  assume "(p, e) \<in> set (shown_plots n plots)"
  then obtain k where k: "(k, p) \<in> set plots" "before n (episode_added p)"
      "filter (\<lambda>e. before n (status_episode e)) (status_history p) \<noteq> []"
      "e = last (filter (\<lambda>e. before n (status_episode e)) (status_history p))"
    by (auto simp: shown_plots_def split: if_splits)
  have "e \<in> set (filter (\<lambda>e. before n (status_episode e)) (status_history p))"
    using k(3,4) last_in_set by metis
  then show ?thesis using k(1,2) by auto
qed

lemma shown_characters_complete:
  "(k, c) \<in> set chars \<Longrightarrow> before n (first_appearance c) \<Longrightarrow>
   e \<in> set (state_history c) \<Longrightarrow> before n (episode e) \<Longrightarrow>
   (k, last_n 2 (filter (\<lambda>e. before n (episode e)) (state_history c)))
     \<in> set (shown_characters n chars)"
proof -
  assume a: "(k, c) \<in> set chars" "before n (first_appearance c)"
     "e \<in> set (state_history c)" "before n (episode e)"
  then have "filter (\<lambda>e. before n (episode e)) (state_history c) \<noteq> []"
    by (auto simp: filter_empty_conv)
  with a(1,2) show ?thesis
    unfolding shown_characters_def set_concat set_map by force
qed

lemma shown_plots_complete:
  "(k, p) \<in> set plots \<Longrightarrow> before n (episode_added p) \<Longrightarrow>
   e \<in> set (status_history p) \<Longrightarrow> before n (status_episode e) \<Longrightarrow>
   (p, last (filter (\<lambda>e. before n (status_episode e)) (status_history p)))
     \<in> set (shown_plots n plots)"
proof -
  assume a: "(k, p) \<in> set plots" "before n (episode_added p)"
     "e \<in> set (status_history p)" "before n (status_episode e)"
  then have "filter (\<lambda>e. before n (status_episode e)) (status_history p) \<noteq> []"
    by (auto simp: filter_empty_conv)
  with a(1,2) show ?thesis
    unfolding shown_plots_def set_concat set_map by force
qed

lemma example_store_int_episodes: "int_episodes example_store"
  by (simp add: int_episodes_def example_store_def)

lemma example_summary_1:
  "get_context_summary example_store 1 =
   Inr (full_summary [''Ann: Episode 0: Description: brave'']
          [''Plot: quest - Status as of Episode 0: planned''])"
  by code_simp

lemma sublist_join: "x \<in> set xs \<Longrightarrow> sublist x (join sep xs)"
proof (induction sep xs rule: join.induct)
  case (1 sep)
  then show ?case by simp
next
  case (2 sep y)
  then show ?case by simp
next
  case (3 sep a b bs)
  show ?case
  proof (cases "x = a")
    case True
    then show ?thesis by simp
  next
    case False
    with 3 have "sublist x (join sep (b # bs))" by simp
    then obtain ps ss where "join sep (b # bs) = ps @ x @ ss" unfolding sublist_def by blast
    then have "join sep (a # b # bs) = (a @ sep @ ps) @ x @ ss" by simp
    then show ?thesis unfolding sublist_def by blast
  qed
qed

lemma sublist_in: "sublist x y \<Longrightarrow> sublist x (a @ y @ b)"
proof -
  assume "sublist x y"
  then obtain ps ss where "y = ps @ x @ ss" unfolding sublist_def by blast
  then have "a @ y @ b = (a @ ps) @ x @ (ss @ b)" by simp
  then show ?thesis unfolding sublist_def by blast
qed

lemma sublist_full_summary_characters:
  "l \<in> set cs \<Longrightarrow> sublist l (full_summary cs ps)"
proof -
  assume l: "l \<in> set cs"
  then have ne: "cs \<noteq> []" by auto
  let ?tail = "if ps \<noteq> [] then nl @ nl @ ''PLOT CONTEXT:'' @ nl @ join nl ps
      else nl @ nl @ ''No prior plot points.''"
  have "full_summary cs ps = (''CHARACTER CONTEXT:'' @ nl) @ join nl cs @ ?tail"
    using ne by (simp add: full_summary_def)
  moreover have "sublist l ((''CHARACTER CONTEXT:'' @ nl) @ join nl cs @ ?tail)"
    using l by (intro sublist_in sublist_join)
  ultimately show ?thesis by simp
qed

lemma sublist_full_summary_plots:
  "l \<in> set ps \<Longrightarrow> sublist l (full_summary cs ps)"
proof -
  assume l: "l \<in> set ps"
  then have ne: "ps \<noteq> []" by auto
  let ?head = "if cs \<noteq> [] then ''CHARACTER CONTEXT:'' @ nl @ join nl cs
      else ''No prior character information.''"
  have "full_summary cs ps = (?head @ nl @ nl @ ''PLOT CONTEXT:'' @ nl) @ join nl ps @ []"
    using ne by (simp add: full_summary_def)
  moreover have "sublist l ((?head @ nl @ nl @ ''PLOT CONTEXT:'' @ nl) @ join nl ps @ [])"
    using l by (intro sublist_in sublist_join)
  ultimately show ?thesis by simp
qed

lemma sublist_character_text:
  "e \<in> set es \<Longrightarrow> sublist (state_text e) (character_text (k, es))"
proof -
  assume "e \<in> set es"
  then have "sublist (state_text e) ((py_str k @ '': '') @ join ''; '' (map state_text es) @ [])"
    by (intro sublist_in sublist_join) simp
  then show ?thesis by (simp add: character_text_def)
qed

text \<open>
  Claim C2, as the code has it. For every store and every episode number \<open>n\<close>, whenever
  \<^verbatim>\<open>get_context_summary(n)\<close> returns, the text it returns is the rendering of
  character lines and plot lines such that every state entry shown belongs to the history
  of a stored character and has an integer episode below \<open>n\<close>, and every status entry
  shown belongs to the history of a stored plot point and has an integer episode below
  \<open>n\<close>: no entry with episode \<open>n\<close> or later is rendered, and the text of every entry
  shown occurs in the returned text. Planning facts are never held back by this boundary:
  for every \<open>n \<ge> 1\<close> a character first recorded at episode 0 with an episode-0 state has
  its line, and a plot point added at episode 0 with an episode-0 status has its line. The
  line of a character renders the last two of its entries below \<open>n\<close> and the line of a
  plot point the entry appended last among those below \<open>n\<close>, so an episode-0 fact is in
  the text exactly as long as it is among these. The call returns whenever every episode
  field of the store is an integer.
\<close>

theorem get_context_summary_causal:
  "(int_episodes mm \<longrightarrow> (\<exists>res. get_context_summary mm n = Inr res)) \<and>
   (\<forall>res. get_context_summary mm n = Inr res \<longrightarrow>
      (\<exists>cs ps.
         res = full_summary (map character_text cs) (map plot_text ps) \<and>
         (\<forall>(k, es) \<in> set cs. \<exists>c. (k, c) \<in> set (characters mm) \<and>
            (\<forall>e \<in> set es. e \<in> set (state_history c) \<and> (\<exists>i. episode e = PInt i \<and> i < n))) \<and>
         (\<forall>(p, e) \<in> set ps. p \<in> snd ` set (plot_points mm) \<and> e \<in> set (status_history p) \<and>
            (\<exists>i. status_episode e = PInt i \<and> i < n)) \<and>
         (\<forall>(k, es) \<in> set cs. \<forall>e \<in> set es. sublist (state_text e) res) \<and>
         (\<forall>(p, e) \<in> set ps. sublist (plot_text (p, e)) res) \<and>
         (1 \<le> n \<longrightarrow>
            (\<forall>(k, c) \<in> set (characters mm).
               first_appearance c = PInt 0 \<and> (\<exists>e \<in> set (state_history c). episode e = PInt 0) \<longrightarrow>
               (k, last_n 2 (filter (\<lambda>e. before n (episode e)) (state_history c))) \<in> set cs) \<and>
            (\<forall>(k, p) \<in> set (plot_points mm).
               episode_added p = PInt 0 \<and>
               (\<exists>e \<in> set (status_history p). status_episode e = PInt 0) \<longrightarrow>
               (p, last (filter (\<lambda>e. before n (status_episode e)) (status_history p)))
                 \<in> set ps))))"
proof (intro conjI allI impI)
  assume "int_episodes mm"
  then show "\<exists>res. get_context_summary mm n = Inr res"
    by (rule get_context_summary_total)
next
  fix res
  assume ok: "get_context_summary mm n = Inr res"
  let ?cs = "shown_characters n (characters mm)"
  let ?ps = "shown_plots n (plot_points mm)"
  have res: "res = full_summary (map character_text ?cs) (map plot_text ?ps)"
    using ok by (rule get_context_summary_Inr)
  have cs: "\<forall>(k, es) \<in> set ?cs. \<exists>c. (k, c) \<in> set (characters mm) \<and>
            (\<forall>e \<in> set es. e \<in> set (state_history c) \<and> (\<exists>i. episode e = PInt i \<and> i < n))"
  proof (clarify)
    fix k es
    assume "(k, es) \<in> set ?cs"
    from shown_characters_sound [OF this]
    show "\<exists>c. (k, c) \<in> set (characters mm) \<and>
            (\<forall>e \<in> set es. e \<in> set (state_history c) \<and> (\<exists>i. episode e = PInt i \<and> i < n))"
      by (auto simp: before_iff)
  qed
  have ps: "\<forall>(p, e) \<in> set ?ps. p \<in> snd ` set (plot_points mm) \<and> e \<in> set (status_history p) \<and>
            (\<exists>i. status_episode e = PInt i \<and> i < n)"
  proof (clarify)
    fix p e
    assume "(p, e) \<in> set ?ps"
    from shown_plots_sound [OF this]
    show "p \<in> snd ` set (plot_points mm) \<and> e \<in> set (status_history p) \<and>
            (\<exists>i. status_episode e = PInt i \<and> i < n)"
      by (force simp: before_iff)
  qed
  have ct: "\<forall>(k, es) \<in> set ?cs. \<forall>e \<in> set es. sublist (state_text e) res"
  proof (clarify)
    fix k es e
    assume line: "(k, es) \<in> set ?cs" and e: "e \<in> set es"
    from e have "sublist (state_text e) (character_text (k, es))"
      by (rule sublist_character_text)
    moreover from line have "character_text (k, es) \<in> set (map character_text ?cs)" by force
    then have "sublist (character_text (k, es)) res"
      unfolding res by (rule sublist_full_summary_characters)
    ultimately show "sublist (state_text e) res" by (rule sublist_order.order.trans)
  qed
  have pt: "\<forall>(p, e) \<in> set ?ps. sublist (plot_text (p, e)) res"
  proof (clarify)
    fix p e
    assume "(p, e) \<in> set ?ps"
    then have "plot_text (p, e) \<in> set (map plot_text ?ps)" by force
    then show "sublist (plot_text (p, e)) res"
      unfolding res by (rule sublist_full_summary_plots)
  qed
  have c0: "1 \<le> n \<longrightarrow>
            (\<forall>(k, c) \<in> set (characters mm).
               first_appearance c = PInt 0 \<and> (\<exists>e \<in> set (state_history c). episode e = PInt 0) \<longrightarrow>
               (k, last_n 2 (filter (\<lambda>e. before n (episode e)) (state_history c))) \<in> set ?cs)"
  proof (clarify)
    fix k c e
    assume "1 \<le> n" "(k, c) \<in> set (characters mm)" "first_appearance c = PInt 0"
      "e \<in> set (state_history c)" "episode e = PInt 0"
    then show "(k, last_n 2 (filter (\<lambda>e. before n (episode e)) (state_history c))) \<in> set ?cs"
      by (intro shown_characters_complete [of k c _ n e]) simp_all
  qed
  have p0: "1 \<le> n \<longrightarrow>
            (\<forall>(k, p) \<in> set (plot_points mm).
               episode_added p = PInt 0 \<and>
               (\<exists>e \<in> set (status_history p). status_episode e = PInt 0) \<longrightarrow>
               (p, last (filter (\<lambda>e. before n (status_episode e)) (status_history p)))
                 \<in> set ?ps)"
  proof (clarify)
    fix k p e
    assume "1 \<le> n" "(k, p) \<in> set (plot_points mm)" "episode_added p = PInt 0"
      "e \<in> set (status_history p)" "status_episode e = PInt 0"
    then show "(p, last (filter (\<lambda>e. before n (status_episode e)) (status_history p))) \<in> set ?ps"
      by (intro shown_plots_complete [of k p _ n e]) simp_all
  qed
  show "\<exists>cs ps.
         res = full_summary (map character_text cs) (map plot_text ps) \<and>
         (\<forall>(k, es) \<in> set cs. \<exists>c. (k, c) \<in> set (characters mm) \<and>
            (\<forall>e \<in> set es. e \<in> set (state_history c) \<and> (\<exists>i. episode e = PInt i \<and> i < n))) \<and>
         (\<forall>(p, e) \<in> set ps. p \<in> snd ` set (plot_points mm) \<and> e \<in> set (status_history p) \<and>
            (\<exists>i. status_episode e = PInt i \<and> i < n)) \<and>
         (\<forall>(k, es) \<in> set cs. \<forall>e \<in> set es. sublist (state_text e) res) \<and>
         (\<forall>(p, e) \<in> set ps. sublist (plot_text (p, e)) res) \<and>
         (1 \<le> n \<longrightarrow>
            (\<forall>(k, c) \<in> set (characters mm).
               first_appearance c = PInt 0 \<and> (\<exists>e \<in> set (state_history c). episode e = PInt 0) \<longrightarrow>
               (k, last_n 2 (filter (\<lambda>e. before n (episode e)) (state_history c))) \<in> set cs) \<and>
            (\<forall>(k, p) \<in> set (plot_points mm).
               episode_added p = PInt 0 \<and>
               (\<exists>e \<in> set (status_history p). status_episode e = PInt 0) \<longrightarrow>
               (p, last (filter (\<lambda>e. before n (status_episode e)) (status_history p)))
                 \<in> set ps))"
    using res cs ps ct pt c0 p0 by blast
qed

lemma example_summary_2_lines:
  "get_context_summary example_store 2 =
     Inr (''CHARACTER CONTEXT:'' @ nl @
          ''Ann: Episode 0: Description: brave; Episode 1: wounded'' @ nl @ nl @
          ''PLOT CONTEXT:'' @ nl @ ''Plot: quest - Status as of Episode 1: active'')"
  by code_simp

theorem get_context_summary_causal_witness:
  "int_episodes example_store \<and>
   (\<exists>res. get_context_summary example_store 2 = Inr res) \<and>
   get_context_summary example_store 2 =
     Inr (''CHARACTER CONTEXT:'' @ nl @
          ''Ann: Episode 0: Description: brave; Episode 1: wounded'' @ nl @ nl @
          ''PLOT CONTEXT:'' @ nl @ ''Plot: quest - Status as of Episode 1: active'') \<and>
   sublist (state_text \<lparr>episode = PInt 0, change = PStr ''Description: brave''\<rparr>)
     (''CHARACTER CONTEXT:'' @ nl @
      ''Ann: Episode 0: Description: brave; Episode 1: wounded'' @ nl @ nl @
      ''PLOT CONTEXT:'' @ nl @ ''Plot: quest - Status as of Episode 1: active'') \<and>
   sublist (plot_text
       (\<lparr>plot_id = 1, summary = PStr ''quest'', status = PStr ''active'', episode_added = PInt 0,
         status_history = [\<lparr>status_episode = PInt 0, status_value = PStr ''planned''\<rparr>,
           \<lparr>status_episode = PInt 3, status_value = PStr ''resolved''\<rparr>,
           \<lparr>status_episode = PInt 1, status_value = PStr ''active''\<rparr>]\<rparr>,
        \<lparr>status_episode = PInt 1, status_value = PStr ''active''\<rparr>))
     (''CHARACTER CONTEXT:'' @ nl @
      ''Ann: Episode 0: Description: brave; Episode 1: wounded'' @ nl @ nl @
      ''PLOT CONTEXT:'' @ nl @ ''Plot: quest - Status as of Episode 1: active'')"
proof -
  let ?ann = "\<lparr>name = PStr ''Ann'', first_appearance = PInt 0,
      state_history = [\<lparr>episode = PInt 0, change = PStr ''Description: brave''\<rparr>,
                       \<lparr>episode = PInt 1, change = PStr ''wounded''\<rparr>,
                       \<lparr>episode = PInt 2, change = PStr ''healed''\<rparr>]\<rparr>"
  let ?quest = "\<lparr>plot_id = 1, summary = PStr ''quest'', status = PStr ''active'',
       episode_added = PInt 0,
       status_history = [\<lparr>status_episode = PInt 0, status_value = PStr ''planned''\<rparr>,
           \<lparr>status_episode = PInt 3, status_value = PStr ''resolved''\<rparr>,
          \<lparr>status_episode = PInt 1, status_value = PStr ''active''\<rparr>]\<rparr>"
  let ?res = "''CHARACTER CONTEXT:'' @ nl @
      ''Ann: Episode 0: Description: brave; Episode 1: wounded'' @ nl @ nl @
      ''PLOT CONTEXT:'' @ nl @ ''Plot: quest - Status as of Episode 1: active''"
  note inst = get_context_summary_causal [of example_store 2]
  from inst example_store_int_episodes
  have ex: "\<exists>res. get_context_summary example_store 2 = Inr res" by blast
  from inst example_summary_2_lines obtain cs ps where
    ct: "\<forall>(k, es) \<in> set cs. \<forall>e \<in> set es. sublist (state_text e) ?res" and
    pt: "\<forall>(p, e) \<in> set ps. sublist (plot_text (p, e)) ?res" and
    c0: "\<forall>(k, c) \<in> set (characters example_store).
               first_appearance c = PInt 0 \<and> (\<exists>e \<in> set (state_history c). episode e = PInt 0) \<longrightarrow>
               (k, last_n 2 (filter (\<lambda>e. before 2 (episode e)) (state_history c))) \<in> set cs" and
    p0: "\<forall>(k, p) \<in> set (plot_points example_store).
               episode_added p = PInt 0 \<and>
               (\<exists>e \<in> set (status_history p). status_episode e = PInt 0) \<longrightarrow>
               (p, last (filter (\<lambda>e. before 2 (status_episode e)) (status_history p)))
                 \<in> set ps"
    by auto
  have "(PStr ''Ann'', ?ann) \<in> set (characters example_store)"
    by (simp add: example_store_def)
  with c0 have "(PStr ''Ann'', last_n 2 (filter (\<lambda>e. before 2 (episode e)) (state_history ?ann)))
      \<in> set cs"
    by fastforce
  then have "(PStr ''Ann'', [\<lparr>episode = PInt 0, change = PStr ''Description: brave''\<rparr>,
                       \<lparr>episode = PInt 1, change = PStr ''wounded''\<rparr>]) \<in> set cs"
    by (simp add: last_n_def)
  with ct have a: "sublist (state_text \<lparr>episode = PInt 0, change = PStr ''Description: brave''\<rparr>) ?res"
    by fastforce
  have "(''1'', ?quest) \<in> set (plot_points example_store)"
    by (simp add: example_store_def)
  with p0 have "(?quest, last (filter (\<lambda>e. before 2 (status_episode e)) (status_history ?quest)))
      \<in> set ps"
    by fastforce
  then have "(?quest, \<lparr>status_episode = PInt 1, status_value = PStr ''active''\<rparr>) \<in> set ps"
    by simp
  with pt have b: "sublist (plot_text (?quest, \<lparr>status_episode = PInt 1, status_value = PStr ''active''\<rparr>)) ?res"
    by fastforce
  from example_store_int_episodes ex example_summary_2_lines a b show ?thesis by blast
qed

text \<open>
  Claim C2 as stated fails in its clause that planning facts recorded at episode 0 are
  visible for every \<open>n \<ge> 1\<close>. In the example store Ann has her planning description at
  episode 0 and the quest its planned status at episode 0. The summary for episode 3
  renders Ann's entries of episodes 1 and 2 and the quest's status of episode 1: it
  contains no fact of episode 0.
\<close>

theorem planning_facts_visible_counterexample:
  "map_of (characters example_store) (PStr ''Ann'') =
     Some \<lparr>name = PStr ''Ann'', first_appearance = PInt 0,
           state_history = [\<lparr>episode = PInt 0, change = PStr ''Description: brave''\<rparr>,
                            \<lparr>episode = PInt 1, change = PStr ''wounded''\<rparr>,
                            \<lparr>episode = PInt 2, change = PStr ''healed''\<rparr>]\<rparr> \<and>
   map_of (plot_points example_store) ''1'' =
     Some \<lparr>plot_id = 1, summary = PStr ''quest'', status = PStr ''active'',
           episode_added = PInt 0,
           status_history = [\<lparr>status_episode = PInt 0, status_value = PStr ''planned''\<rparr>,
                             \<lparr>status_episode = PInt 3, status_value = PStr ''resolved''\<rparr>,
                             \<lparr>status_episode = PInt 1, status_value = PStr ''active''\<rparr>]\<rparr> \<and>
   get_context_summary example_store 3 =
     Inr (''CHARACTER CONTEXT:'' @ nl @ ''Ann: Episode 1: wounded; Episode 2: healed'' @ nl @
          ''Bob: Episode 2: arrives'' @ nl @ nl @
          ''PLOT CONTEXT:'' @ nl @ ''Plot: quest - Status as of Episode 1: active'') \<and>
   \<not> sublist ''Episode 0''
       (''CHARACTER CONTEXT:'' @ nl @ ''Ann: Episode 1: wounded; Episode 2: healed'' @ nl @
        ''Bob: Episode 2: arrives'' @ nl @ nl @
        ''PLOT CONTEXT:'' @ nl @ ''Plot: quest - Status as of Episode 1: active'') \<and>
   \<not> sublist ''Description: brave''
       (''CHARACTER CONTEXT:'' @ nl @ ''Ann: Episode 1: wounded; Episode 2: healed'' @ nl @
        ''Bob: Episode 2: arrives'' @ nl @ nl @
        ''PLOT CONTEXT:'' @ nl @ ''Plot: quest - Status as of Episode 1: active'') \<and>
   \<not> sublist ''planned''
       (''CHARACTER CONTEXT:'' @ nl @ ''Ann: Episode 1: wounded; Episode 2: healed'' @ nl @
        ''Bob: Episode 2: arrives'' @ nl @ nl @
        ''PLOT CONTEXT:'' @ nl @ ''Plot: quest - Status as of Episode 1: active'')"
  by code_simp

section \<open>Which status entry is shown\<close>

lemma latest_of_sorted:
  "sorted (map (\<lambda>e. episode_num (status_episode e)) (x # xs)) \<Longrightarrow> latest_of x xs = last (x # xs)"
proof (induction xs arbitrary: x)
  case Nil
  then show ?case by (simp add: latest_of_def)
next
  case (Cons y ys)
  have "latest_of x (y # ys) = latest_of y ys"
    using Cons.prems by (simp add: latest_of_def)
  also have "\<dots> = last (y # ys)"
    using Cons.prems by (intro Cons.IH) simp
  finally show ?case by simp
qed

lemma latest_by_episode_in_order:
  "appended_in_order n plots \<Longrightarrow> latest_by_episode n plots = shown_plots n plots"
proof (induction plots)
  case Nil
  show ?case by (simp add: latest_by_episode_def shown_plots_def)
next
  case (Cons kp plots)
  obtain k p where kp: "kp = (k, p)" by (cases kp) auto
  let ?f = "filter (\<lambda>e. before n (status_episode e)) (status_history p)"
  have s: "sorted (map (\<lambda>e. episode_num (status_episode e)) ?f)"
    using Cons.prems by (simp add: appended_in_order_def kp)
  have hd: "(case ?f of [] \<Rightarrow> [] | x # xs \<Rightarrow> [(p, latest_of x xs)]) =
            (if ?f \<noteq> [] then [(p, last ?f)] else [])"
  proof (cases ?f)
    case Nil
    then show ?thesis by simp
  next
    case (Cons x xs)
    with s have "latest_of x xs = last (x # xs)" by (intro latest_of_sorted) simp
    with Cons show ?thesis by simp
  qed
  have tl: "latest_by_episode n plots = shown_plots n plots"
    using Cons.prems by (intro Cons.IH) (simp add: appended_in_order_def)
  have "latest_by_episode n (kp # plots) =
        (if before n (episode_added p)
         then (case ?f of [] \<Rightarrow> [] | x # xs \<Rightarrow> [(p, latest_of x xs)]) else []) @
        latest_by_episode n plots"
    by (simp add: latest_by_episode_def kp)
  also have "\<dots> = (if before n (episode_added p) \<and> ?f \<noteq> [] then [(p, last ?f)] else []) @
        shown_plots n plots"
    by (simp add: hd tl)
  also have "\<dots> = shown_plots n (kp # plots)"
    by (simp add: shown_plots_def kp)
  finally show ?case .
qed

lemma example_summary_2:
  "get_context_summary example_store 2 =
     Inr (full_summary [''Ann: Episode 0: Description: brave; Episode 1: wounded'']
            [''Plot: quest - Status as of Episode 1: active''])"
  by code_simp

lemma example_in_order_2: "appended_in_order 2 (plot_points example_store)"
  by (simp add: appended_in_order_def example_store_def)

text \<open>
  Claim C6, as the code has it. For every plot point added before episode \<open>n\<close> that has a
  status entry with an episode below \<open>n\<close>, \<^verbatim>\<open>get_context_summary(n)\<close> shows the entry
  appended last among those with an episode below \<open>n\<close>: the episode field decides which
  entries are eligible, the insertion position decides which of them is shown. When the
  eligible entries of every plot point were appended in non-decreasing episode order, the
  entry shown is the one with the greatest episode field.
\<close>

theorem context_summary_latest_status:
  "get_context_summary mm n = Inr res \<Longrightarrow>
   (\<exists>cs ps.
      res = full_summary cs (map plot_text ps) \<and>
      (\<forall>(k, p) \<in> set (plot_points mm).
         before n (episode_added p) \<and>
         (\<exists>e \<in> set (status_history p). before n (status_episode e)) \<longrightarrow>
         (p, last (filter (\<lambda>e. before n (status_episode e)) (status_history p))) \<in> set ps) \<and>
      (appended_in_order n (plot_points mm) \<longrightarrow> ps = latest_by_episode n (plot_points mm)))"
proof -
  assume ok: "get_context_summary mm n = Inr res"
  let ?cs = "map character_text (shown_characters n (characters mm))"
  let ?ps = "shown_plots n (plot_points mm)"
  have a: "res = full_summary ?cs (map plot_text ?ps)"
    using ok by (rule get_context_summary_Inr)
  have b: "\<forall>(k, p) \<in> set (plot_points mm).
         before n (episode_added p) \<and>
         (\<exists>e \<in> set (status_history p). before n (status_episode e)) \<longrightarrow>
         (p, last (filter (\<lambda>e. before n (status_episode e)) (status_history p))) \<in> set ?ps"
  proof (clarify)
    fix k p e
    assume "(k, p) \<in> set (plot_points mm)" "before n (episode_added p)"
      "e \<in> set (status_history p)" "before n (status_episode e)"
    then show "(p, last (filter (\<lambda>e. before n (status_episode e)) (status_history p))) \<in> set ?ps"
      by (rule shown_plots_complete)
  qed
  have c: "appended_in_order n (plot_points mm) \<longrightarrow> ?ps = latest_by_episode n (plot_points mm)"
    by (simp add: latest_by_episode_in_order)
  from a b c show ?thesis by blast
qed

theorem context_summary_latest_status_witness:
  "get_context_summary example_store 2 =
     Inr (full_summary [''Ann: Episode 0: Description: brave; Episode 1: wounded'']
            [''Plot: quest - Status as of Episode 1: active'']) \<and>
   appended_in_order 2 (plot_points example_store) \<and>
   (\<exists>cs ps.
      full_summary [''Ann: Episode 0: Description: brave; Episode 1: wounded'']
            [''Plot: quest - Status as of Episode 1: active''] =
      full_summary cs (map plot_text ps) \<and>
      ps = latest_by_episode 2 (plot_points example_store) \<and>
      (\<exists>p. (p, \<lparr>status_episode = PInt 1, status_value = PStr ''active''\<rparr>) \<in> set ps))"
proof -
  let ?quest = "\<lparr>plot_id = 1, summary = PStr ''quest'', status = PStr ''active'',
       episode_added = PInt 0,
       status_history = [\<lparr>status_episode = PInt 0, status_value = PStr ''planned''\<rparr>,
           \<lparr>status_episode = PInt 3, status_value = PStr ''resolved''\<rparr>,
          \<lparr>status_episode = PInt 1, status_value = PStr ''active''\<rparr>]\<rparr>"
  from context_summary_latest_status [OF example_summary_2] example_in_order_2
  obtain cs ps where
    eq: "full_summary [''Ann: Episode 0: Description: brave; Episode 1: wounded'']
            [''Plot: quest - Status as of Episode 1: active''] =
      full_summary cs (map plot_text ps)" and
    sh: "\<forall>(k, p) \<in> set (plot_points example_store).
         before 2 (episode_added p) \<and>
         (\<exists>e \<in> set (status_history p). before 2 (status_episode e)) \<longrightarrow>
         (p, last (filter (\<lambda>e. before 2 (status_episode e)) (status_history p))) \<in> set ps" and
    la: "ps = latest_by_episode 2 (plot_points example_store)"
    by blast
  have "(''1'', ?quest) \<in> set (plot_points example_store)"
    by (simp add: example_store_def)
  with sh have "(?quest, last (filter (\<lambda>e. before 2 (status_episode e)) (status_history ?quest)))
      \<in> set ps"
    by fastforce
  then have "\<exists>p. (p, \<lparr>status_episode = PInt 1, status_value = PStr ''active''\<rparr>) \<in> set ps"
    by auto
  with example_summary_2 example_in_order_2 eq la show ?thesis by blast
qed

text \<open>
  Claim C6 as stated fails. The plot point of the example store received its status for
  episode 3 before the one for episode 1. For episode 5 the summary shows the entry of
  episode 1, the last appended; the entry with the greatest episode below 5 is that of
  episode 3.
\<close>

theorem latest_status_by_episode_counterexample:
  "get_context_summary example_store 5 =
     Inr (full_summary [''Ann: Episode 1: wounded; Episode 2: healed'', ''Bob: Episode 2: arrives'']
            [''Plot: quest - Status as of Episode 1: active'']) \<and>
   map plot_text (latest_by_episode 5 (plot_points example_store)) =
     [''Plot: quest - Status as of Episode 3: resolved''] \<and>
   get_context_summary example_store 5 \<noteq>
     Inr (full_summary [''Ann: Episode 1: wounded; Episode 2: healed'', ''Bob: Episode 2: arrives'']
            (map plot_text (latest_by_episode 5 (plot_points example_store))))"
  by code_simp

section \<open>Saving and reloading\<close>

lemma update_fresh: "k \<notin> fst ` set d \<Longrightarrow> AList.update k v d = d @ [(k, v)]"
  by (induction d) auto

lemma foldl_update_distinct:
  "distinct (map fst (d @ ps)) \<Longrightarrow>
   foldl (\<lambda>d (k, v). AList.update k v d) d ps = d @ ps"
proof (induction ps arbitrary: d)
  case Nil
  show ?case by simp
next
  case (Cons kv ps)
  obtain k v where kv: "kv = (k, v)" by (cases kv) auto
  have fresh: "k \<notin> fst ` set d" using Cons.prems by (auto simp: kv)
  have "foldl (\<lambda>d (k, v). AList.update k v d) (d @ [(k, v)]) ps = (d @ [(k, v)]) @ ps"
    using Cons.prems by (intro Cons.IH) (simp add: kv)
  then show ?case by (simp add: kv update_fresh [OF fresh])
qed

lemma dict_of_distinct: "distinct (map fst ps) \<Longrightarrow> dict_of ps = ps"
  using foldl_update_distinct [of "[]" ps] by (simp add: dict_of_def)

lemma string_keys_back:
  "list_all (\<lambda>(k, c). is_str k) chars \<Longrightarrow>
   map (\<lambda>(k, c). (PStr k, c)) (map (\<lambda>(k, c). (json_key k, c)) chars) = chars"
proof (induction chars)
  case Nil
  show ?case by simp
next
  case (Cons kc chars)
  obtain k c where kc: "kc = (k, c)" by (cases kc) auto
  from Cons.prems have "is_str k" by (simp add: kc)
  then have "PStr (json_key k) = k" by (cases k) auto
  with Cons show ?case by (simp add: kc)
qed

text \<open>The operations keep every key once, as a Python dictionary does.\<close>

lemma distinct_keys_update_character_state:
  "distinct (map fst (characters mm)) \<Longrightarrow>
   distinct (map fst (characters (update_character_state out nm ch ep mm)))"
  by (simp add: update_character_state_def Let_def distinct_update)

lemma distinct_keys_add_plot_point:
  "distinct (map fst (plot_points mm)) \<Longrightarrow>
   distinct (map fst (plot_points (snd (add_plot_point out summ stat ep mm))))"
  by (simp add: add_plot_point_def Let_def distinct_update)

lemma distinct_keys_update_plot_status:
  "distinct (map fst (plot_points mm)) \<Longrightarrow>
   distinct (map fst (plot_points (snd (update_plot_status out pid stat ep mm))))"
  by (simp add: update_plot_status_def distinct_update split: option.splits)

text \<open>
  Claim C7, as the code has it. After a save that completes, for a store whose character
  names are all strings (each dictionary holding every key once, as in Python), a fresh
  manager on the same directory reloads a character table, a plot table and an id counter
  equal to the ones in memory.
\<close>

theorem save_load_round_trip:
  "list_all (\<lambda>(k, c). is_str k) (characters mm) \<Longrightarrow>
   distinct (map fst (characters mm)) \<Longrightarrow> distinct (map fst (plot_points mm)) \<Longrightarrow>
   characters (init_MemoryManager vs (db (save_persistent_data Save_Completes mm))) = characters mm \<and>
   plot_points (init_MemoryManager vs (db (save_persistent_data Save_Completes mm))) = plot_points mm \<and>
   plot_counter (init_MemoryManager vs (db (save_persistent_data Save_Completes mm))) = plot_counter mm"
proof -
  assume str: "list_all (\<lambda>(k, c). is_str k) (characters mm)"
    and dc: "distinct (map fst (characters mm))" and dp: "distinct (map fst (plot_points mm))"
  let ?rt = "map (\<lambda>(k, c). (PStr k, c)) (map (\<lambda>(k, c). (json_key k, c)) (characters mm))"
  have rt: "?rt = characters mm" using str by (rule string_keys_back)
  have "distinct (map fst ?rt)" using dc by (simp only: rt)
  then have "dict_of ?rt = ?rt" by (rule dict_of_distinct)
  then have c: "dict_of ?rt = characters mm" by (simp only: rt)
  have p: "dict_of (plot_points mm) = plot_points mm" using dp by (rule dict_of_distinct)
  have "init_MemoryManager vs (db (save_persistent_data Save_Completes mm)) =
        \<lparr>characters = dict_of ?rt, plot_points = dict_of (plot_points mm),
         plot_counter = plot_counter mm, db = db (save_persistent_data Save_Completes mm), vector_store = vs\<rparr>"
    by (simp add: init_MemoryManager_def load_persistent_data_def save_persistent_data_def
             del: map_map)
  then have "init_MemoryManager vs (db (save_persistent_data Save_Completes mm)) =
        \<lparr>characters = characters mm, plot_points = plot_points mm,
         plot_counter = plot_counter mm, db = db (save_persistent_data Save_Completes mm), vector_store = vs\<rparr>"
    by (simp only: c p)
  then show ?thesis by simp
qed

theorem save_load_round_trip_witness:
  "list_all (\<lambda>(k, c). is_str k) (characters example_store) \<and>
   distinct (map fst (characters example_store)) \<and>
   distinct (map fst (plot_points example_store)) \<and>
   characters (init_MemoryManager None (db (save_persistent_data Save_Completes example_store))) =
     characters example_store \<and>
   plot_points (init_MemoryManager None (db (save_persistent_data Save_Completes example_store))) =
     plot_points example_store \<and>
   plot_counter (init_MemoryManager None (db (save_persistent_data Save_Completes example_store))) = 1"
proof -
  have a: "list_all (\<lambda>(k, c). is_str k) (characters example_store)"
    by (simp add: example_store_def)
  have b: "distinct (map fst (characters example_store))"
    by (simp add: example_store_def)
  have c: "distinct (map fst (plot_points example_store))"
    by (simp add: example_store_def)
  have d: "plot_counter example_store = 1" by (simp add: example_store_def)
  from save_load_round_trip [OF a b c, of None] a b c d show ?thesis by simp
qed

text \<open>
  Claim C7 as stated fails. \<^verbatim>\<open>json.dump\<close> writes the dictionary key \<^verbatim>\<open>None\<close> as the
  string \<^verbatim>\<open>"null"\<close>: a store with a character recorded under \<^verbatim>\<open>None\<close> saves without
  error and reloads with that character under the key \<^verbatim>\<open>"null"\<close>.
\<close>

theorem save_load_round_trip_counterexample:
  "characters unnamed_store =
     [(PNone, \<lparr>name = PNone, first_appearance = PInt 1,
               state_history = [\<lparr>episode = PInt 1, change = PStr ''enters''\<rparr>]\<rparr>)] \<and>
   characters (init_MemoryManager None (db unnamed_store)) =
     [(PStr ''null'', \<lparr>name = PNone, first_appearance = PInt 1,
               state_history = [\<lparr>episode = PInt 1, change = PStr ''enters''\<rparr>]\<rparr>)] \<and>
   characters (init_MemoryManager None (db unnamed_store)) \<noteq> characters unnamed_store"
  by code_simp

section \<open>The scene loop\<close>

lemma error_sentinel_found:
  "sublist ''Error generating Scene'' (''Error generating Scene '' @ str_nat n)"
proof -
  have "''Error generating Scene '' @ str_nat n =
        [] @ ''Error generating Scene'' @ ('' '' @ str_nat n)" by simp
  then show ?thesis unfolding sublist_def by blast
qed

lemma generate_scene_None:
  "c (scene_prompt en sn es ci cs rc prev) = None \<Longrightarrow>
   generate_scene c en sn es ci cs rc prev =
     (''Error generating Scene '' @ str_nat sn, ''Error'', True)"
  by (simp add: generate_scene_def)

lemma generate_scene_Some:
  "c (scene_prompt en sn es ci cs rc prev) = Some content \<Longrightarrow>
   generate_scene c en sn es ci cs rc prev =
     (strip content, prev @ nl @ nl @ strip content, suffix ''# EPISODE END'' (strip content))"
  by (simp add: generate_scene_def Let_def)

lemma scene_loop_exit:
  "\<not> (sn \<le> MAX_SCENES_PER_EPISODE \<and> \<not> fin) \<Longrightarrow>
   scene_loop c en es cs ci rc script sn prev fin = (script, [])"
  by (subst scene_loop.simps) auto

lemma scene_loop_error:
  "sn \<le> MAX_SCENES_PER_EPISODE \<Longrightarrow> \<not> fin \<Longrightarrow>
   sublist ''Error generating Scene'' (fst (generate_scene c en sn es ci cs rc prev)) \<Longrightarrow>
   scene_loop c en es cs ci rc script sn prev fin =
     (script @ [''ERROR GENERATING SCENE '' @ str_nat sn @ '': Generation stopped.''],
      [scene_prompt en sn es ci cs rc prev])"
  by (subst scene_loop.simps) (simp add: Let_def)

lemma scene_loop_step:
  "sn \<le> MAX_SCENES_PER_EPISODE \<Longrightarrow> \<not> fin \<Longrightarrow>
   \<not> sublist ''Error generating Scene'' (fst (generate_scene c en sn es ci cs rc prev)) \<Longrightarrow>
   scene_loop c en es cs ci rc script sn prev fin =
     apsnd ((#) (scene_prompt en sn es ci cs rc prev))
       (scene_loop c en es cs ci rc
          ((script @ [fst (generate_scene c en sn es ci cs rc prev)]) @
           (if sn + 1 > MAX_SCENES_PER_EPISODE \<and> \<not> snd (snd (generate_scene c en sn es ci cs rc prev))
            then [''# SCENE LIMIT REACHED - EPISODE INCOMPLETE''] else []))
          (sn + 1) (fst (snd (generate_scene c en sn es ci cs rc prev)))
          (snd (snd (generate_scene c en sn es ci cs rc prev))))"
  by (subst scene_loop.simps) (simp add: Let_def)

lemma scene_loop_calls_bound:
  "length (snd (scene_loop c en es cs ci rc script sn prev fin)) \<le>
   Suc MAX_SCENES_PER_EPISODE - sn"
proof (induction "Suc MAX_SCENES_PER_EPISODE - sn" arbitrary: sn script prev fin)
  case 0
  then have "\<not> (sn \<le> MAX_SCENES_PER_EPISODE \<and> \<not> fin)" by simp
  then show ?case by (simp add: scene_loop_exit)
next
  case (Suc m)
  show ?case
  proof (cases "sn \<le> MAX_SCENES_PER_EPISODE \<and> \<not> fin")
    case False
    then show ?thesis by (simp add: scene_loop_exit)
  next
    case True
    show ?thesis
    proof (cases "sublist ''Error generating Scene'' (fst (generate_scene c en sn es ci cs rc prev))")
      case err: True
      with True Suc.hyps(2) show ?thesis by (simp add: scene_loop_error)
    next
      case ok: False
      have m: "m = Suc MAX_SCENES_PER_EPISODE - (sn + 1)" using Suc.hyps(2) by simp
      have "length (snd (scene_loop c en es cs ci rc
          ((script @ [fst (generate_scene c en sn es ci cs rc prev)]) @
           (if sn + 1 > MAX_SCENES_PER_EPISODE \<and> \<not> snd (snd (generate_scene c en sn es ci cs rc prev))
            then [''# SCENE LIMIT REACHED - EPISODE INCOMPLETE''] else []))
          (sn + 1) (fst (snd (generate_scene c en sn es ci cs rc prev)))
          (snd (snd (generate_scene c en sn es ci cs rc prev))))) \<le>
          Suc MAX_SCENES_PER_EPISODE - (sn + 1)"
        by (rule Suc.hyps(1) [OF m])
      moreover have "Suc (Suc MAX_SCENES_PER_EPISODE - (sn + 1)) = Suc MAX_SCENES_PER_EPISODE - sn"
        using True by arith
      ultimately show ?thesis
        using True ok by (simp add: scene_loop_step [OF _ _ ok])
    qed
  qed
qed


text \<open>A failed call is the last one; the parts before its marker are the earlier scenes.\<close>

lemma scene_loop_first_call:
  "snd (scene_loop c en es cs ci rc script sn prev fin) \<noteq> [] \<Longrightarrow>
   sn \<le> MAX_SCENES_PER_EPISODE \<and> \<not> fin \<and>
   hd (snd (scene_loop c en es cs ci rc script sn prev fin)) = scene_prompt en sn es ci cs rc prev"
proof -
  assume ne: "snd (scene_loop c en es cs ci rc script sn prev fin) \<noteq> []"
  then have go: "sn \<le> MAX_SCENES_PER_EPISODE" "\<not> fin"
    by (auto simp: scene_loop_exit intro: ccontr)
  show ?thesis
  proof (cases "sublist ''Error generating Scene'' (fst (generate_scene c en sn es ci cs rc prev))")
    case True
    show ?thesis unfolding scene_loop_error [OF go True] using go by simp
  next
    case False
    show ?thesis unfolding scene_loop_step [OF go False] using go by simp
  qed
qed

lemma generate_scene_ok:
  "\<not> sublist ''Error generating Scene'' (fst (generate_scene c en sn es ci cs rc prev)) \<Longrightarrow>
   fst (generate_scene c en sn es ci cs rc prev) = scene_of c (scene_prompt en sn es ci cs rc prev) \<and>
   c (scene_prompt en sn es ci cs rc prev) \<noteq> None"
  by (cases "c (scene_prompt en sn es ci cs rc prev)")
     (auto simp: generate_scene_None generate_scene_Some error_sentinel_found scene_of_def)

lemma scene_loop_failure:
  "k < length (snd (scene_loop c en es cs ci rc script sn prev fin)) \<Longrightarrow>
   c (snd (scene_loop c en es cs ci rc script sn prev fin) ! k) = None \<Longrightarrow>
   Suc k = length (snd (scene_loop c en es cs ci rc script sn prev fin)) \<and>
   fst (scene_loop c en es cs ci rc script sn prev fin) =
     script @ map (scene_of c) (take k (snd (scene_loop c en es cs ci rc script sn prev fin))) @
     [''ERROR GENERATING SCENE '' @ str_nat (sn + k) @ '': Generation stopped.'']"
proof (induction k arbitrary: sn script prev fin)
  case 0
  let ?r = "scene_prompt en sn es ci cs rc prev"
  from 0(1) have ne: "snd (scene_loop c en es cs ci rc script sn prev fin) \<noteq> []" by auto
  from scene_loop_first_call [OF ne] have go: "sn \<le> MAX_SCENES_PER_EPISODE" "\<not> fin"
    and first: "hd (snd (scene_loop c en es cs ci rc script sn prev fin)) = ?r" by blast+
  from 0(2) ne first have none: "c ?r = None" by (simp add: hd_conv_nth)
  have err: "sublist ''Error generating Scene'' (fst (generate_scene c en sn es ci cs rc prev))"
    using none by (simp add: generate_scene_None error_sentinel_found)
  show ?case unfolding scene_loop_error [OF go err] by simp
next
  case (Suc k)
  let ?r = "scene_prompt en sn es ci cs rc prev"
  let ?g = "generate_scene c en sn es ci cs rc prev"
  let ?script = "(script @ [fst ?g]) @
           (if sn + 1 > MAX_SCENES_PER_EPISODE \<and> \<not> snd (snd ?g)
            then [''# SCENE LIMIT REACHED - EPISODE INCOMPLETE''] else [])"
  let ?rest = "scene_loop c en es cs ci rc ?script (sn + 1) (fst (snd ?g)) (snd (snd ?g))"
  from Suc.prems(1) have ne: "snd (scene_loop c en es cs ci rc script sn prev fin) \<noteq> []" by auto
  from scene_loop_first_call [OF ne] have go: "sn \<le> MAX_SCENES_PER_EPISODE" "\<not> fin" by blast+
  have ok: "\<not> sublist ''Error generating Scene'' (fst ?g)"
    using Suc.prems(1) go by (auto simp: scene_loop_error)
  obtain s calls where rest: "?rest = (s, calls)" by (cases ?rest)
  have whole: "scene_loop c en es cs ci rc script sn prev fin = (s, ?r # calls)"
    by (simp only: scene_loop_step [OF go ok] rest apsnd_conv)
  from Suc.prems have k: "k < length calls" and none: "c (calls ! k) = None"
    by (simp_all add: whole)
  have k': "k < length (snd ?rest)" and none': "c (snd ?rest ! k) = None"
    using k none by (simp_all only: rest snd_conv)
  from Suc.IH [OF k' none'] have len: "Suc k = length calls" and
    parts: "s = ?script @ map (scene_of c) (take k calls) @
       [''ERROR GENERATING SCENE '' @ str_nat (sn + 1 + k) @ '': Generation stopped.'']"
    by (simp_all only: rest fst_conv snd_conv)
  have "snd ?rest \<noteq> []" using k by (simp only: rest snd_conv) auto
  from scene_loop_first_call [OF this] have "sn + 1 \<le> MAX_SCENES_PER_EPISODE" by blast
  moreover have scene: "fst ?g = scene_of c ?r" using generate_scene_ok [OF ok] by simp
  ultimately have script: "?script = script @ [scene_of c ?r]" by simp
  from parts have "s = (script @ [scene_of c ?r]) @ map (scene_of c) (take k calls) @
       [''ERROR GENERATING SCENE '' @ str_nat (sn + 1 + k) @ '': Generation stopped.'']"
    unfolding script .
  then have "s = script @ map (scene_of c) (take (Suc k) (?r # calls)) @
       [''ERROR GENERATING SCENE '' @ str_nat (sn + Suc k) @ '': Generation stopped.'']"
    by simp
  with len show ?case by (simp add: whole)
qed

text \<open>When the last allowed scene is generated and does not end the episode.\<close>

lemma scene_loop_limit:
  "sn \<le> MAX_SCENES_PER_EPISODE \<Longrightarrow> \<not> fin \<Longrightarrow>
   length (snd (scene_loop c en es cs ci rc script sn prev fin)) = Suc MAX_SCENES_PER_EPISODE - sn \<Longrightarrow>
   c (last (snd (scene_loop c en es cs ci rc script sn prev fin))) = Some content \<Longrightarrow>
   \<not> suffix ''# EPISODE END'' (strip content) \<Longrightarrow>
   \<not> sublist ''Error generating Scene'' (strip content) \<Longrightarrow>
   fst (scene_loop c en es cs ci rc script sn prev fin) =
     script @ map (scene_of c) (snd (scene_loop c en es cs ci rc script sn prev fin)) @
     [''# SCENE LIMIT REACHED - EPISODE INCOMPLETE'']"
proof (induction "MAX_SCENES_PER_EPISODE - sn" arbitrary: sn script prev fin)
  case 0
  let ?r = "scene_prompt en sn es ci cs rc prev"
  let ?g = "generate_scene c en sn es ci cs rc prev"
  let ?script = "(script @ [fst ?g]) @
           (if sn + 1 > MAX_SCENES_PER_EPISODE \<and> \<not> snd (snd ?g)
            then [''# SCENE LIMIT REACHED - EPISODE INCOMPLETE''] else [])"
  from 0(1,2) have big: "sn + 1 > MAX_SCENES_PER_EPISODE" by simp
  then have over: "\<not> (sn + 1 \<le> MAX_SCENES_PER_EPISODE \<and> \<not> b)" for b by simp
  from 0(4) have "snd (scene_loop c en es cs ci rc script sn prev fin) \<noteq> []"
    using 0(2) by auto
  from scene_loop_first_call [OF this]
  have first: "hd (snd (scene_loop c en es cs ci rc script sn prev fin)) = ?r" by blast
  have one: "length (snd (scene_loop c en es cs ci rc script sn prev fin)) = 1"
    using 0(4) big 0(2) by simp
  then have calls: "snd (scene_loop c en es cs ci rc script sn prev fin) = [?r]"
    using first by (cases "snd (scene_loop c en es cs ci rc script sn prev fin)") auto
  with 0(5) have content: "c ?r = Some content" by simp
  have g: "?g = (strip content, prev @ nl @ nl @ strip content, False)"
    using 0(6) content by (simp add: generate_scene_Some)
  have ok: "\<not> sublist ''Error generating Scene'' (fst ?g)" using 0(7) by (simp add: g)
  have whole: "scene_loop c en es cs ci rc script sn prev fin = (?script, [?r])"
    by (simp only: scene_loop_step [OF 0(2,3) ok] scene_loop_exit [OF over] apsnd_conv)
  have script: "?script = script @ [strip content, ''# SCENE LIMIT REACHED - EPISODE INCOMPLETE'']"
    using big by (simp add: g)
  show ?case
    using content by (simp only: whole script fst_conv snd_conv) (simp add: scene_of_def)
next
  case (Suc m)
  let ?r = "scene_prompt en sn es ci cs rc prev"
  let ?g = "generate_scene c en sn es ci cs rc prev"
  let ?script = "(script @ [fst ?g]) @
           (if sn + 1 > MAX_SCENES_PER_EPISODE \<and> \<not> snd (snd ?g)
            then [''# SCENE LIMIT REACHED - EPISODE INCOMPLETE''] else [])"
  let ?rest = "scene_loop c en es cs ci rc ?script (sn + 1) (fst (snd ?g)) (snd (snd ?g))"
  from Suc.hyps(2) have lt: "sn < MAX_SCENES_PER_EPISODE" by simp
  then have two: "Suc MAX_SCENES_PER_EPISODE - sn \<ge> 2" by simp
  have ok: "\<not> sublist ''Error generating Scene'' (fst ?g)"
  proof
    assume "sublist ''Error generating Scene'' (fst ?g)"
    then have "length (snd (scene_loop c en es cs ci rc script sn prev fin)) = 1"
      using Suc.prems(1,2) by (simp add: scene_loop_error)
    with Suc.prems(3) two show False by simp
  qed
  obtain s calls where rest: "?rest = (s, calls)" by (cases ?rest)
  have whole: "scene_loop c en es cs ci rc script sn prev fin = (s, ?r # calls)"
    by (simp only: scene_loop_step [OF Suc.prems(1,2) ok] rest apsnd_conv)
  have len: "length calls = Suc MAX_SCENES_PER_EPISODE - (sn + 1)"
    using Suc.prems(3) lt by (simp add: whole)
  then have ne: "calls \<noteq> []" using lt by auto
  have cont: "\<not> snd (snd ?g)"
  proof
    assume "snd (snd ?g)"
    then have "snd ?rest = []" by (simp add: scene_loop_exit)
    with ne show False by (simp only: rest snd_conv)
  qed
  have last: "c (last calls) = Some content"
    using Suc.prems(4) ne by (simp add: whole)
  have m: "m = MAX_SCENES_PER_EPISODE - (sn + 1)" using Suc.hyps(2) by simp
  have le: "sn + 1 \<le> MAX_SCENES_PER_EPISODE" using lt by simp
  have len': "length (snd ?rest) = Suc MAX_SCENES_PER_EPISODE - (sn + 1)"
    using len by (simp only: rest snd_conv)
  have last': "c (last (snd ?rest)) = Some content"
    using last by (simp only: rest snd_conv)
  have "fst ?rest = ?script @ map (scene_of c) (snd ?rest) @
     [''# SCENE LIMIT REACHED - EPISODE INCOMPLETE'']"
    using Suc.hyps(1) [OF m le cont len' last' Suc.prems(5,6)] .
  then have IH: "s = ?script @ map (scene_of c) calls @
     [''# SCENE LIMIT REACHED - EPISODE INCOMPLETE'']"
    by (simp only: rest fst_conv snd_conv)
  have scene: "fst ?g = scene_of c ?r" using generate_scene_ok [OF ok] by simp
  with le have script: "?script = script @ [scene_of c ?r]" by simp
  from IH have "s = (script @ [scene_of c ?r]) @ map (scene_of c) calls @
     [''# SCENE LIMIT REACHED - EPISODE INCOMPLETE'']"
    unfolding script .
  then have "s = script @ map (scene_of c) (?r # calls) @
     [''# SCENE LIMIT REACHED - EPISODE INCOMPLETE'']"
    by simp
  then show ?case by (simp add: whole)
qed


lemma scene_loop_scene_numbers:
  "k < length (snd (scene_loop c en es cs ci rc script sn prev fin)) \<Longrightarrow>
   req_scene_number (snd (scene_loop c en es cs ci rc script sn prev fin) ! k) = sn + k"
proof (induction k arbitrary: sn script prev fin)
  case 0
  then have ne: "snd (scene_loop c en es cs ci rc script sn prev fin) \<noteq> []" by auto
  from scene_loop_first_call [OF ne]
  have "hd (snd (scene_loop c en es cs ci rc script sn prev fin)) =
        scene_prompt en sn es ci cs rc prev" by blast
  with ne show ?case by (simp add: hd_conv_nth [symmetric] scene_prompt_def)
next
  case (Suc k)
  let ?r = "scene_prompt en sn es ci cs rc prev"
  let ?g = "generate_scene c en sn es ci cs rc prev"
  let ?script = "(script @ [fst ?g]) @
           (if sn + 1 > MAX_SCENES_PER_EPISODE \<and> \<not> snd (snd ?g)
            then [''# SCENE LIMIT REACHED - EPISODE INCOMPLETE''] else [])"
  let ?rest = "scene_loop c en es cs ci rc ?script (sn + 1) (fst (snd ?g)) (snd (snd ?g))"
  from Suc.prems have ne: "snd (scene_loop c en es cs ci rc script sn prev fin) \<noteq> []" by auto
  from scene_loop_first_call [OF ne] have go: "sn \<le> MAX_SCENES_PER_EPISODE" "\<not> fin" by blast+
  have ok: "\<not> sublist ''Error generating Scene'' (fst ?g)"
    using Suc.prems go by (auto simp: scene_loop_error)
  obtain s calls where rest: "?rest = (s, calls)" by (cases ?rest)
  have whole: "scene_loop c en es cs ci rc script sn prev fin = (s, ?r # calls)"
    by (simp only: scene_loop_step [OF go ok] rest apsnd_conv)
  from Suc.prems have "k < length calls" by (simp add: whole)
  then have "k < length (snd ?rest)" by (simp only: rest snd_conv)
  from Suc.IH [OF this] have "req_scene_number (calls ! k) = sn + 1 + k"
    by (simp only: rest snd_conv)
  then show ?case by (simp add: whole)
qed

text \<open>A service that never ends the episode and never fails is asked exactly up to the cap.\<close>

lemma scene_loop_endless:
  "\<forall>r. \<exists>content. c r = Some content \<and> \<not> suffix ''# EPISODE END'' (strip content) \<and>
         \<not> sublist ''Error generating Scene'' (strip content) \<Longrightarrow>
   \<not> fin \<Longrightarrow>
   length (snd (scene_loop c en es cs ci rc script sn prev fin)) = Suc MAX_SCENES_PER_EPISODE - sn"
proof (induction "Suc MAX_SCENES_PER_EPISODE - sn" arbitrary: sn script prev fin)
  case 0
  then have "\<not> (sn \<le> MAX_SCENES_PER_EPISODE \<and> \<not> fin)" by simp
  from scene_loop_exit [OF this] 0(1) show ?case by simp
next
  case (Suc m)
  let ?r = "scene_prompt en sn es ci cs rc prev"
  let ?g = "generate_scene c en sn es ci cs rc prev"
  let ?script = "(script @ [fst ?g]) @
           (if sn + 1 > MAX_SCENES_PER_EPISODE \<and> \<not> snd (snd ?g)
            then [''# SCENE LIMIT REACHED - EPISODE INCOMPLETE''] else [])"
  let ?rest = "scene_loop c en es cs ci rc ?script (sn + 1) (fst (snd ?g)) (snd (snd ?g))"
  from Suc.hyps(2) have le: "sn \<le> MAX_SCENES_PER_EPISODE" by simp
  from Suc.prems(1) obtain content where content: "c ?r = Some content"
    "\<not> suffix ''# EPISODE END'' (strip content)"
    "\<not> sublist ''Error generating Scene'' (strip content)" by blast
  have g: "?g = (strip content, prev @ nl @ nl @ strip content, False)"
    using content by (simp add: generate_scene_Some)
  have ok: "\<not> sublist ''Error generating Scene'' (fst ?g)" using content(3) by (simp add: g)
  have cont: "\<not> snd (snd ?g)" by (simp add: g)
  obtain s calls where rest: "?rest = (s, calls)" by (cases ?rest)
  have whole: "scene_loop c en es cs ci rc script sn prev fin = (s, ?r # calls)"
    by (simp only: scene_loop_step [OF le Suc.prems(2) ok] rest apsnd_conv)
  have m: "m = Suc MAX_SCENES_PER_EPISODE - (sn + 1)" using Suc.hyps(2) by simp
  have "length (snd ?rest) = Suc MAX_SCENES_PER_EPISODE - (sn + 1)"
    using Suc.hyps(1) [OF m Suc.prems(1) cont] .
  then have "length calls = Suc MAX_SCENES_PER_EPISODE - (sn + 1)"
    by (simp only: rest snd_conv)
  with le show ?case by (simp add: whole)
qed

lemma endless_ok:
  "\<forall>r. \<exists>content. endless_client r = Some content \<and> \<not> suffix ''# EPISODE END'' (strip content) \<and>
          \<not> sublist ''Error generating Scene'' (strip content)"
proof -
  have "\<not> suffix ''# EPISODE END'' (strip ''INT. ROOM - DAY'')" by code_simp
  moreover have "\<not> sublist ''Error generating Scene'' (strip ''INT. ROOM - DAY'')" by code_simp
  ultimately show ?thesis by (simp add: endless_client_def)
qed

lemma endless_scene: "scene_of endless_client r = ''INT. ROOM - DAY''"
proof -
  have "strip ''INT. ROOM - DAY'' = ''INT. ROOM - DAY''" by code_simp
  then show ?thesis by (simp add: scene_of_def endless_client_def)
qed

lemma map_endless:
  "map (scene_of endless_client) xs = replicate (length xs) ''INT. ROOM - DAY''"
  by (induction xs) (simp_all add: endless_scene)

lemma failing_run:
  "snd (generate_episode_script failing_client 1 ''goal'' ''ctx'' ''chars'' ''chunks'') =
   [scene_prompt 1 1 ''goal'' ''chars'' ''ctx'' ''chunks'' [],
    scene_prompt 1 2 ''goal'' ''chars'' ''ctx'' ''chunks'' (nl @ nl @ ''EXT. ROAD - NIGHT''),
    scene_prompt 1 3 ''goal'' ''chars'' ''ctx'' ''chunks''
      (nl @ nl @ ''EXT. ROAD - NIGHT'' @ nl @ nl @ ''EXT. ROAD - NIGHT'')]"
  by code_simp

text \<open>
  Claim C4, as the code has it. \<^verbatim>\<open>generate_episode_script\<close> is a total function: it
  returns for every service. It sends the scene service at most
  \<^verbatim>\<open>MAX_SCENES_PER_EPISODE\<close> (10) requests. When it has sent 10 and the tenth scene came
  back without the end marker and without the text \<^verbatim>\<open>Error generating Scene\<close> in it, the
  returned script is the scenes followed by the limit annotation. In particular a service
  that never ends the episode, never fails and never writes that text is asked exactly 10
  times and the script ends with the annotation.
\<close>

theorem scene_cap:
  "length (snd (generate_episode_script c en es cs ci rc)) \<le> MAX_SCENES_PER_EPISODE \<and>
   (\<forall>content.
      length (snd (generate_episode_script c en es cs ci rc)) = MAX_SCENES_PER_EPISODE \<and>
      c (last (snd (generate_episode_script c en es cs ci rc))) = Some content \<and>
      \<not> suffix ''# EPISODE END'' (strip content) \<and>
      \<not> sublist ''Error generating Scene'' (strip content) \<longrightarrow>
      fst (generate_episode_script c en es cs ci rc) =
        join (nl @ nl) (map (scene_of c) (snd (generate_episode_script c en es cs ci rc)) @
                          [''# SCENE LIMIT REACHED - EPISODE INCOMPLETE''])) \<and>
   ((\<forall>r. \<exists>content. c r = Some content \<and> \<not> suffix ''# EPISODE END'' (strip content) \<and>
          \<not> sublist ''Error generating Scene'' (strip content)) \<longrightarrow>
      length (snd (generate_episode_script c en es cs ci rc)) = MAX_SCENES_PER_EPISODE \<and>
      fst (generate_episode_script c en es cs ci rc) =
        join (nl @ nl) (map (scene_of c) (snd (generate_episode_script c en es cs ci rc)) @
                          [''# SCENE LIMIT REACHED - EPISODE INCOMPLETE'']))"
proof -
  let ?L = "scene_loop c en es cs ci rc [] 1 [] False"
  have G: "generate_episode_script c en es cs ci rc = (join (nl @ nl) (fst ?L), snd ?L)"
    by (simp add: generate_episode_script_def split_beta)
  have one: "(1::nat) \<le> MAX_SCENES_PER_EPISODE" by (simp add: MAX_SCENES_PER_EPISODE_def)
  have bound: "length (snd ?L) \<le> MAX_SCENES_PER_EPISODE"
    using scene_loop_calls_bound [of c en es cs ci rc "[]" 1 "[]" False] by simp
  have limit: "fst ?L = map (scene_of c) (snd ?L) @ [''# SCENE LIMIT REACHED - EPISODE INCOMPLETE'']"
    if "length (snd ?L) = MAX_SCENES_PER_EPISODE" "c (last (snd ?L)) = Some content"
      "\<not> suffix ''# EPISODE END'' (strip content)"
      "\<not> sublist ''Error generating Scene'' (strip content)" for content
    using scene_loop_limit [of 1 False c en es cs ci rc "[]" "[]" content] one that by simp
  have endless: "length (snd ?L) = MAX_SCENES_PER_EPISODE"
    if "\<forall>r. \<exists>content. c r = Some content \<and> \<not> suffix ''# EPISODE END'' (strip content) \<and>
          \<not> sublist ''Error generating Scene'' (strip content)"
    using scene_loop_endless [OF that, of False en es cs ci rc "[]" 1 "[]"] by simp
  have endless_script:
    "fst ?L = map (scene_of c) (snd ?L) @ [''# SCENE LIMIT REACHED - EPISODE INCOMPLETE'']"
    if all: "\<forall>r. \<exists>content. c r = Some content \<and> \<not> suffix ''# EPISODE END'' (strip content) \<and>
          \<not> sublist ''Error generating Scene'' (strip content)"
  proof -
    from all obtain content where "c (last (snd ?L)) = Some content"
      "\<not> suffix ''# EPISODE END'' (strip content)"
      "\<not> sublist ''Error generating Scene'' (strip content)" by blast
    with endless [OF all] show ?thesis by (intro limit)
  qed
  show ?thesis
    unfolding G fst_conv snd_conv
  proof (intro conjI allI impI)
    show "length (snd ?L) \<le> MAX_SCENES_PER_EPISODE" by (rule bound)
  next
    fix content
    assume "length (snd ?L) = MAX_SCENES_PER_EPISODE \<and> c (last (snd ?L)) = Some content \<and>
      \<not> suffix ''# EPISODE END'' (strip content) \<and>
      \<not> sublist ''Error generating Scene'' (strip content)"
    then have "fst ?L = map (scene_of c) (snd ?L) @ [''# SCENE LIMIT REACHED - EPISODE INCOMPLETE'']"
      by (intro limit [of content]) simp_all
    then show "join (nl @ nl) (fst ?L) =
      join (nl @ nl) (map (scene_of c) (snd ?L) @ [''# SCENE LIMIT REACHED - EPISODE INCOMPLETE''])"
      by (rule arg_cong)
  next
    assume all: "\<forall>r. \<exists>content. c r = Some content \<and> \<not> suffix ''# EPISODE END'' (strip content) \<and>
          \<not> sublist ''Error generating Scene'' (strip content)"
    then show "length (snd ?L) = MAX_SCENES_PER_EPISODE" by (rule endless)
    from all have "fst ?L = map (scene_of c) (snd ?L) @ [''# SCENE LIMIT REACHED - EPISODE INCOMPLETE'']"
      by (rule endless_script)
    then show "join (nl @ nl) (fst ?L) =
      join (nl @ nl) (map (scene_of c) (snd ?L) @ [''# SCENE LIMIT REACHED - EPISODE INCOMPLETE''])"
      by (rule arg_cong)
  qed
qed

theorem scene_cap_witness:
  "(\<forall>r. \<exists>content. endless_client r = Some content \<and>
      \<not> suffix ''# EPISODE END'' (strip content) \<and>
      \<not> sublist ''Error generating Scene'' (strip content)) \<and>
   length (snd (generate_episode_script endless_client 1 ''goal'' ''ctx'' ''chars'' ''chunks'')) = 10 \<and>
   fst (generate_episode_script endless_client 1 ''goal'' ''ctx'' ''chars'' ''chunks'') =
     join (nl @ nl) (replicate 10 ''INT. ROOM - DAY'' @
                       [''# SCENE LIMIT REACHED - EPISODE INCOMPLETE''])"
proof -
  let ?G = "generate_episode_script endless_client 1 ''goal'' ''ctx'' ''chars'' ''chunks''"
  from scene_cap [of endless_client 1 "''goal''" "''ctx''" "''chars''" "''chunks''"] endless_ok
  have len: "length (snd ?G) = MAX_SCENES_PER_EPISODE" and
    script: "fst ?G = join (nl @ nl) (map (scene_of endless_client) (snd ?G) @
                          [''# SCENE LIMIT REACHED - EPISODE INCOMPLETE''])"
    by blast+
  have "map (scene_of endless_client) (snd ?G) = replicate (length (snd ?G)) ''INT. ROOM - DAY''"
    by (rule map_endless)
  with len have "map (scene_of endless_client) (snd ?G) = replicate 10 ''INT. ROOM - DAY''"
    by (simp add: MAX_SCENES_PER_EPISODE_def)
  with script have "fst ?G = join (nl @ nl) (replicate 10 ''INT. ROOM - DAY'' @
                       [''# SCENE LIMIT REACHED - EPISODE INCOMPLETE''])"
    by (simp only:)
  with len endless_ok show ?thesis by (simp add: MAX_SCENES_PER_EPISODE_def)
qed

text \<open>
  Claim C4 as stated fails in its last clause. The loop tests every scene, also one the
  service returned without failure, for the text \<^verbatim>\<open>Error generating Scene\<close>. With a
  service whose tenth scene contains it, ten requests are sent and answered, none of the
  scenes ends with the end marker, and the script ends with the error marker of scene 10:
  no limit annotation is appended.
\<close>

theorem limit_annotation_counterexample:
  "length (snd (generate_episode_script sentinel_client 1 ''goal'' ''ctx'' ''chars'' ''chunks'')) = 10 \<and>
   list_all (\<lambda>request.
       case sentinel_client request of
         None \<Rightarrow> False
       | Some content \<Rightarrow> \<not> suffix ''# EPISODE END'' (strip content))
     (snd (generate_episode_script sentinel_client 1 ''goal'' ''ctx'' ''chars'' ''chunks'')) \<and>
   suffix ''ERROR GENERATING SCENE 10: Generation stopped.''
     (fst (generate_episode_script sentinel_client 1 ''goal'' ''ctx'' ''chars'' ''chunks'')) \<and>
   \<not> sublist ''# SCENE LIMIT REACHED - EPISODE INCOMPLETE''
     (fst (generate_episode_script sentinel_client 1 ''goal'' ''ctx'' ''chars'' ''chunks''))"
  by code_simp

text \<open>
  Claim C8. When the call for scene \<open>k + 1\<close> fails, it is the last call the loop makes (no
  retry, no later scene), the returned script holds the scenes of the \<open>k\<close> earlier calls in
  order, and the error marker for scene \<open>k + 1\<close> is appended to it.
\<close>

theorem scene_failure_halts:
  "k < length (snd (generate_episode_script c en es cs ci rc)) \<Longrightarrow>
   c (snd (generate_episode_script c en es cs ci rc) ! k) = None \<Longrightarrow>
   req_scene_number (snd (generate_episode_script c en es cs ci rc) ! k) = Suc k \<and>
   length (snd (generate_episode_script c en es cs ci rc)) = Suc k \<and>
   fst (generate_episode_script c en es cs ci rc) =
     join (nl @ nl)
       (map (scene_of c) (take k (snd (generate_episode_script c en es cs ci rc))) @
        [''ERROR GENERATING SCENE '' @ str_nat (Suc k) @ '': Generation stopped.''])"
proof -
  let ?L = "scene_loop c en es cs ci rc [] 1 [] False"
  have G: "generate_episode_script c en es cs ci rc = (join (nl @ nl) (fst ?L), snd ?L)"
    by (simp add: generate_episode_script_def split_beta)
  assume "k < length (snd (generate_episode_script c en es cs ci rc))"
    and "c (snd (generate_episode_script c en es cs ci rc) ! k) = None"
  then have k: "k < length (snd ?L)" and none: "c (snd ?L ! k) = None"
    by (simp_all add: G)
  from scene_loop_failure [OF k none] scene_loop_scene_numbers [OF k]
  show ?thesis by (simp add: G)
qed

theorem scene_failure_halts_witness:
  "(2::nat) < length (snd (generate_episode_script failing_client 1 ''goal'' ''ctx'' ''chars'' ''chunks'')) \<and>
   failing_client
     (snd (generate_episode_script failing_client 1 ''goal'' ''ctx'' ''chars'' ''chunks'') ! 2) = None \<and>
   length (snd (generate_episode_script failing_client 1 ''goal'' ''ctx'' ''chars'' ''chunks'')) = 3 \<and>
   fst (generate_episode_script failing_client 1 ''goal'' ''ctx'' ''chars'' ''chunks'') =
     join (nl @ nl)
       [''EXT. ROAD - NIGHT'', ''EXT. ROAD - NIGHT'',
        ''ERROR GENERATING SCENE '' @ str_nat 3 @ '': Generation stopped.'']"
proof -
  let ?G = "generate_episode_script failing_client 1 ''goal'' ''ctx'' ''chars'' ''chunks''"
  have k: "2 < length (snd ?G)" by (simp add: failing_run)
  have none: "failing_client (snd ?G ! 2) = None"
    by (simp add: failing_run failing_client_def scene_prompt_def)
  have strip: "strip '' EXT. ROAD - NIGHT '' = ''EXT. ROAD - NIGHT''" by code_simp
  have scenes: "map (scene_of failing_client) (take 2 (snd ?G)) =
     [''EXT. ROAD - NIGHT'', ''EXT. ROAD - NIGHT'']"
    by (simp add: failing_run scene_of_def failing_client_def scene_prompt_def strip)
  from scene_failure_halts [OF k none] have
    len: "length (snd ?G) = Suc 2" and
    script: "fst ?G = join (nl @ nl) (map (scene_of failing_client) (take 2 (snd ?G)) @
        [''ERROR GENERATING SCENE '' @ str_nat (Suc 2) @ '': Generation stopped.''])"
    by blast+
  have three: "Suc 2 = 3" by simp
  from script have "fst ?G = join (nl @ nl)
       [''EXT. ROAD - NIGHT'', ''EXT. ROAD - NIGHT'',
        ''ERROR GENERATING SCENE '' @ str_nat 3 @ '': Generation stopped.'']"
    unfolding scenes three by simp
  with k none len show ?thesis by simp
qed

section \<open>A plot point without an episode\<close>

lemma str_nat_starts_with_digit: "\<exists>d s. d < 10 \<and> str_nat n = digit_char d # s"
proof (induction n rule: str_nat.induct)
  case (1 n)
  show ?case
  proof (cases "n < 10")
    case True
    then show ?thesis by (subst str_nat.simps) auto
  next
    case False
    with 1 obtain d s where "d < 10" "str_nat (n div 10) = digit_char d # s" by auto
    with False show ?thesis by (subst str_nat.simps) auto
  qed
qed

lemma digit_char_not_minus: "d < 10 \<Longrightarrow> digit_char d \<noteq> CHR ''-''"
proof
  assume d: "d < 10" and eq: "digit_char d = CHR ''-''"
  then have "(of_char (digit_char d) :: nat) = of_char CHR ''-''" by simp
  with d show False by (simp add: digit_char_def)
qed

lemma str_int_inj_all: "str_int i = str_int j \<Longrightarrow> i = j"
proof -
  assume eq: "str_int i = str_int j"
  have neg_pos: False if "a < 0" "0 \<le> b" "str_int a = str_int b" for a b
  proof -
    obtain d s where "d < 10" "str_nat (nat b) = digit_char d # s"
      using str_nat_starts_with_digit by blast
    with that show False by (auto simp: str_int_def dest: digit_char_not_minus)
  qed
  show ?thesis
  proof (cases "i < 0")
    case True
    show ?thesis
    proof (cases "j < 0")
      case jn: True
      with True eq have "str_nat (nat (- i)) = str_nat (nat (- j))" by (simp add: str_int_def)
      then have "nat (- i) = nat (- j)" by (rule str_nat_inj)
      with True jn show ?thesis by simp
    next
      case False
      with True eq neg_pos [of i j] show ?thesis by simp
    qed
  next
    case False
    show ?thesis
    proof (cases "j < 0")
      case True
      with False eq neg_pos [of j i] show ?thesis by simp
    next
      case jp: False
      with False eq show ?thesis by (intro str_int_inj) simp_all
    qed
  qed
qed

lemma py_error_unique: "(e :: py_error) = TypeError"
  by (cases e)

lemma bind_result_fails:
  "(\<And>x. f x = Inl TypeError) \<Longrightarrow> bind_result m f = Inl TypeError"
  by (cases m) (simp_all add: bind_result_def py_error_unique)

lemma bind_result_Inl [simp]: "bind_result (Inl e) f = Inl e"
  by (simp add: bind_result_def)

lemma bind_result_Inr [simp]: "bind_result (Inr x) f = f x"
  by (simp add: bind_result_def)

lemma py_lt_not_int: "\<not> is_int v \<Longrightarrow> py_lt v n = Inl TypeError"
  by (cases v) auto

lemma plot_summary_not_int:
  "(k, p) \<in> set plots \<Longrightarrow> \<not> is_int (episode_added p) \<Longrightarrow> plot_summary plots n = Inl TypeError"
proof (induction plots)
  case Nil
  then show ?case by simp
next
  case (Cons kp plots)
  obtain k' p' where kp: "kp = (k', p')" by (cases kp) auto
  show ?case
  proof (cases "(k, p) = (k', p')")
    case True
    with Cons.prems show ?thesis by (simp add: kp py_lt_not_int)
  next
    case False
    with Cons have rest: "plot_summary plots n = Inl TypeError" by (auto simp: kp)
    show ?thesis
      unfolding kp plot_summary.simps rest
      by (rule bind_result_fails, rule bind_result_fails, simp)
  qed
qed

lemma get_context_summary_not_int:
  "(k, p) \<in> set (plot_points mm) \<Longrightarrow> \<not> is_int (episode_added p) \<Longrightarrow>
   get_context_summary mm n = Inl TypeError"
  unfolding get_context_summary_def
  by (rule bind_result_fails) (simp add: plot_summary_not_int)

lemma untyped_plot_fails: "untyped_plot_at c mm \<Longrightarrow> get_context_summary mm n = Inl TypeError"
proof -
  assume "untyped_plot_at c mm"
  then obtain p where "map_of (plot_points mm) (str_int c) = Some p" "episode_added p = PNone"
    by (auto simp: untyped_plot_at_def split: option.splits)
  then have "(str_int c, p) \<in> set (plot_points mm)" "\<not> is_int (episode_added p)"
    by (auto dest: map_of_SomeD)
  then show ?thesis by (rule get_context_summary_not_int)
qed

lemma plot_points_update_character_state [simp]:
  "plot_points (update_character_state out nm ch ep mm) = plot_points mm"
  by (simp add: update_character_state_def Let_def)

lemma plot_counter_update_character_state [simp]:
  "plot_counter (update_character_state out nm ch ep mm) = plot_counter mm"
  by (simp add: update_character_state_def Let_def)

lemma untyped_plot_apply_op: "untyped_plot_at c mm \<Longrightarrow> untyped_plot_at c (apply_op mm op)"
proof (cases op)
  case (Update_Character out nm ch ep)
  assume "untyped_plot_at c mm"
  then show ?thesis by (simp add: Update_Character untyped_plot_at_def)
next
  case (Add_Plot out summ stat ep)
  assume a: "untyped_plot_at c mm"
  then have "c \<noteq> plot_counter mm + 1" by (simp add: untyped_plot_at_def)
  then have "str_int c \<noteq> str_int (plot_counter mm + 1)" using str_int_inj_all by blast
  with a show ?thesis
    by (simp add: Add_Plot untyped_plot_at_def add_plot_point_lookup add_plot_point_counter)
next
  case (Update_Plot out pid stat ep)
  assume a: "untyped_plot_at c mm"
  show ?thesis
  proof (cases "map_of (plot_points mm) (str_int pid)")
    case None
    with a show ?thesis by (simp add: Update_Plot update_plot_status_def)
  next
    case (Some q)
    with a show ?thesis
      by (auto simp: Update_Plot update_plot_status_def untyped_plot_at_def update_conv'
               split: option.splits)
  qed
qed

lemma untyped_plot_run_ops: "untyped_plot_at c mm \<Longrightarrow> untyped_plot_at c (run_ops ops mm)"
  unfolding run_ops_def by (induction ops arbitrary: mm) (simp_all add: untyped_plot_apply_op)

lemma untyped_plot_added:
  "untyped_plot_at (plot_counter mm + 1) (snd (add_plot_point out summ stat PNone mm))"
  by (simp add: untyped_plot_at_def add_plot_point_lookup add_plot_point_counter)

lemma get_context_summary_needs_int:
  "get_context_summary mm n = Inr res \<Longrightarrow>
   list_all (\<lambda>(k, p). is_int (episode_added p)) (plot_points mm)"
proof (rule ccontr)
  assume ok: "get_context_summary mm n = Inr res"
  assume "\<not> list_all (\<lambda>(k, p). is_int (episode_added p)) (plot_points mm)"
  then obtain k p where "(k, p) \<in> set (plot_points mm)" "\<not> is_int (episode_added p)"
    by (auto simp: list_all_iff)
  then have "get_context_summary mm n = Inl TypeError" by (rule get_context_summary_not_int)
  with ok show False by simp
qed


text \<open>The in-repo callers pass integer episodes: the planner 0, the refiner the episode number.\<close>

lemma list_all_update:
  "list_all P al \<Longrightarrow> P (k, v) \<Longrightarrow> list_all P (AList.update k v al)"
  by (induction al) auto

lemma int_episodes_tables:
  "characters mm' = characters mm \<Longrightarrow> plot_points mm' = plot_points mm \<Longrightarrow>
   int_episodes mm' = int_episodes mm"
  by (simp add: int_episodes_def)

lemma characters_add_plot_point [simp]:
  "characters (snd (add_plot_point out summ stat ep mm)) = characters mm"
  by (simp add: add_plot_point_def Let_def)

lemma characters_update_plot_status [simp]:
  "characters (snd (update_plot_status out pid stat ep mm)) = characters mm"
  by (simp add: update_plot_status_def split: option.splits)

lemma int_episodes_update_character_state:
  "int_episodes mm \<Longrightarrow> int_episodes (update_character_state out nm ch (PInt ep) mm)"
proof -
  assume a: "int_episodes mm"
  let ?P = "\<lambda>(k, c). is_int (first_appearance c) \<and> list_all (\<lambda>e. is_int (episode e)) (state_history c)"
  let ?c = "case map_of (characters mm) nm of
              None \<Rightarrow> \<lparr>name = nm, first_appearance = PInt ep, state_history = []\<rparr>
            | Some c \<Rightarrow> c"
  from a have all: "list_all ?P (characters mm)" by (simp add: int_episodes_def)
  have "?P (nm, ?c)"
  proof (cases "map_of (characters mm) nm")
    case None
    then show ?thesis by simp
  next
    case (Some c)
    then have "(nm, c) \<in> set (characters mm)" by (rule map_of_SomeD)
    with all have "?P (nm, c)" by (auto simp: list_all_iff)
    with Some show ?thesis by simp
  qed
  then have "?P (nm, ?c\<lparr>state_history := state_history ?c @ [\<lparr>episode = PInt ep, change = ch\<rparr>]\<rparr>)"
    by simp
  with all have "list_all ?P (AList.update nm
      (?c\<lparr>state_history := state_history ?c @ [\<lparr>episode = PInt ep, change = ch\<rparr>]\<rparr>)
      (characters mm))"
    by (rule list_all_update)
  with a show ?thesis
    by (simp add: int_episodes_def update_character_state_def Let_def)
qed

lemma int_episodes_add_plot_point:
  "int_episodes mm \<Longrightarrow> int_episodes (snd (add_plot_point out summ stat (PInt ep) mm))"
proof -
  assume a: "int_episodes mm"
  let ?P = "\<lambda>(k, p). is_int (episode_added p) \<and>
                  list_all (\<lambda>e. is_int (status_episode e)) (status_history p)"
  from a have all: "list_all ?P (plot_points mm)" by (simp add: int_episodes_def)
  have "list_all ?P (AList.update (str_int (plot_counter mm + 1))
      \<lparr>plot_id = plot_counter mm + 1, summary = summ, status = stat, episode_added = PInt ep,
       status_history = [\<lparr>status_episode = PInt ep, status_value = stat\<rparr>]\<rparr> (plot_points mm))"
    using all by (rule list_all_update) simp
  with a show ?thesis
    by (simp add: int_episodes_def add_plot_point_def Let_def)
qed

lemma int_episodes_update_plot_status:
  "int_episodes mm \<Longrightarrow> int_episodes (snd (update_plot_status out pid stat (PInt ep) mm))"
proof (cases "map_of (plot_points mm) (str_int pid)")
  case None
  assume "int_episodes mm"
  with None show ?thesis by (simp add: update_plot_status_def)
next
  case (Some p)
  assume a: "int_episodes mm"
  let ?P = "\<lambda>(k, p). is_int (episode_added p) \<and>
                  list_all (\<lambda>e. is_int (status_episode e)) (status_history p)"
  from a have all: "list_all ?P (plot_points mm)" by (simp add: int_episodes_def)
  from Some have "(str_int pid, p) \<in> set (plot_points mm)" by (rule map_of_SomeD)
  with all have "?P (str_int pid, p)" by (auto simp: list_all_iff)
  then have "?P (str_int pid, p\<lparr>status := stat, status_history := status_history p @
                [\<lparr>status_episode = PInt ep, status_value = stat\<rparr>]\<rparr>)"
    by simp
  with all have "list_all ?P (AList.update (str_int pid)
      (p\<lparr>status := stat, status_history := status_history p @
                [\<lparr>status_episode = PInt ep, status_value = stat\<rparr>]\<rparr>) (plot_points mm))"
    by (rule list_all_update)
  with a Some show ?thesis
    by (simp add: int_episodes_def update_plot_status_def)
qed

lemma int_episodes_character_updates:
  "int_episodes mm \<Longrightarrow> int_episodes (apply_character_updates srv n us mm)"
  unfolding apply_character_updates_def
  by (induction us arbitrary: mm) (auto simp: int_episodes_update_character_state)

lemma int_episodes_plot_updates:
  "int_episodes mm \<Longrightarrow> int_episodes (apply_plot_updates srv n us mm)"
  unfolding apply_plot_updates_def
  by (induction us arbitrary: mm)
     (auto simp: int_episodes_update_plot_status split: pyval.splits)

lemma int_episodes_new_plot_points:
  "int_episodes mm \<Longrightarrow> int_episodes (apply_new_plot_points srv n ss mm)"
  unfolding apply_new_plot_points_def
  by (induction ss arbitrary: mm) (auto simp: int_episodes_add_plot_point)

lemma int_episodes_add_chunks:
  "int_episodes (snd (add_chunks_to_vector_store srv chunks n mm)) = int_episodes mm"
  by (rule int_episodes_tables)
     (auto simp: add_chunks_to_vector_store_def Let_def split: option.splits prod.splits)

lemma int_episodes_add_document:
  "int_episodes (snd (add_document_chunks srv t ep typ mm)) = int_episodes mm"
  by (rule int_episodes_tables)
     (auto simp: add_document_chunks_def split: option.splits prod.splits)

lemma int_episodes_update_memory:
  "int_episodes mm \<Longrightarrow> int_episodes (update_memory_from_script srv script_text n mm)"
  by (simp add: update_memory_from_script_def Let_def int_episodes_add_chunks
        int_episodes_character_updates int_episodes_plot_updates int_episodes_new_plot_points
      split: option.splits)

lemma int_episodes_store_episode:
  "int_episodes mm \<Longrightarrow> int_episodes (store_episode srv mm ep)"
proof -
  have key: "int_episodes m \<Longrightarrow>
    int_episodes (foldl (\<lambda>m2 point.
              snd (add_plot_point (disk_write srv m2)
                     (PStr (''Episode '' @ py_str (episode_no ep) @ '' key point: '' @ point))
                     (PStr ''planned'') (PInt 0) m2)) m ps)" for m ps
    by (induction ps arbitrary: m) (auto simp: int_episodes_add_plot_point)
  assume "int_episodes mm"
  then show ?thesis
    unfolding store_episode_def by (intro key int_episodes_add_plot_point)
qed

lemma int_episodes_store_plan:
  "int_episodes mm \<Longrightarrow> int_episodes (snd (store_plan srv plan mm))"
proof (cases plan)
  case None
  assume "int_episodes mm"
  with None show ?thesis by (simp add: store_plan_def)
next
  case (Some pl)
  assume a: "int_episodes mm"
  have chars: "int_episodes m \<Longrightarrow> int_episodes (foldl (store_character srv) m cs)" for m cs
    by (induction cs arbitrary: m)
       (auto simp: store_character_def int_episodes_update_character_state)
  have eps: "int_episodes m \<Longrightarrow> int_episodes (foldl (store_episode srv) m es)" for m es
    by (induction es arbitrary: m) (auto simp: int_episodes_store_episode)
  from a show ?thesis
    by (simp add: Some store_plan_def int_episodes_add_document chars eps)
qed

text \<open>
  Claim C10. \<^verbatim>\<open>get_context_summary(n)\<close> returns only if every plot point's
  \<^verbatim>\<open>episode_added\<close> is a number. Once \<^verbatim>\<open>add_plot_point\<close> has been called with
  \<^verbatim>\<open>episode_added=None\<close>, every later call of \<^verbatim>\<open>get_context_summary\<close> on that manager,
  after any run of the store's operations and for every \<open>n\<close>, fails with
  \<^verbatim>\<open>TypeError\<close>. The callers in the repository pass integers: \<^verbatim>\<open>store_plan\<close> and
  \<^verbatim>\<open>update_memory_from_script\<close> keep every episode field of the store an integer, and
  then the summary returns.
\<close>

theorem context_summary_needs_numeric_episode_added:
  "(\<forall>res. get_context_summary mm n = Inr res \<longrightarrow>
      list_all (\<lambda>(k, p). is_int (episode_added p)) (plot_points mm)) \<and>
   get_context_summary (run_ops ops (snd (add_plot_point out summ stat PNone mm))) n =
     Inl TypeError \<and>
   (int_episodes mm \<longrightarrow>
      int_episodes (snd (store_plan srv plan mm)) \<and>
      int_episodes (update_memory_from_script srv script_text en mm) \<and>
      (\<exists>res. get_context_summary (snd (store_plan srv plan mm)) n = Inr res) \<and>
      (\<exists>res. get_context_summary (update_memory_from_script srv script_text en mm) n = Inr res))"
proof (intro conjI allI impI)
  fix res
  assume "get_context_summary mm n = Inr res"
  then show "list_all (\<lambda>(k, p). is_int (episode_added p)) (plot_points mm)"
    by (rule get_context_summary_needs_int)
next
  have "untyped_plot_at (plot_counter mm + 1)
          (run_ops ops (snd (add_plot_point out summ stat PNone mm)))"
    by (intro untyped_plot_run_ops untyped_plot_added)
  then show "get_context_summary (run_ops ops (snd (add_plot_point out summ stat PNone mm))) n =
     Inl TypeError"
    by (rule untyped_plot_fails)
next
  assume a: "int_episodes mm"
  then show p: "int_episodes (snd (store_plan srv plan mm))"
    by (rule int_episodes_store_plan)
  from a show u: "int_episodes (update_memory_from_script srv script_text en mm)"
    by (rule int_episodes_update_memory)
  from p show "\<exists>res. get_context_summary (snd (store_plan srv plan mm)) n = Inr res"
    by (rule get_context_summary_total)
  from u show "\<exists>res. get_context_summary (update_memory_from_script srv script_text en mm) n = Inr res"
    by (rule get_context_summary_total)
qed

theorem context_summary_needs_numeric_episode_added_witness:
  "int_episodes example_store \<and>
   get_context_summary example_store 1 =
     Inr (full_summary [''Ann: Episode 0: Description: brave'']
            [''Plot: quest - Status as of Episode 0: planned'']) \<and>
   list_all (\<lambda>(k, p). is_int (episode_added p)) (plot_points example_store) \<and>
   get_context_summary
     (run_ops [Update_Plot Save_Completes 2 (PStr ''active'') (PInt 1)]
        (snd (add_plot_point Save_Completes (PStr ''side quest'') (PStr ''introduced'') PNone
                example_store))) 1 = Inl TypeError \<and>
   (\<exists>res. get_context_summary
            (update_memory_from_script example_services ''INT. ROOM'' 1 example_store) 2 = Inr res)"
proof -
  note inst = context_summary_needs_numeric_episode_added
    [of example_store 1 "[Update_Plot Save_Completes 2 (PStr ''active'') (PInt 1)]"
        Save_Completes "PStr ''side quest''" "PStr ''introduced''"]
  from inst example_summary_1
  have a: "list_all (\<lambda>(k, p). is_int (episode_added p)) (plot_points example_store)" by blast
  from inst have b: "get_context_summary
     (run_ops [Update_Plot Save_Completes 2 (PStr ''active'') (PInt 1)]
        (snd (add_plot_point Save_Completes (PStr ''side quest'') (PStr ''introduced'') PNone
                example_store))) 1 = Inl TypeError" by blast
  from context_summary_needs_numeric_episode_added
    [of example_store 2 "[]" Save_Completes PNone PNone example_services None "''INT. ROOM''" 1]
    example_store_int_episodes
  have c: "\<exists>res. get_context_summary
            (update_memory_from_script example_services ''INT. ROOM'' 1 example_store) 2 = Inr res"
    by blast
  from example_store_int_episodes example_summary_1 a b c show ?thesis by blast
qed

section \<open>The pipeline\<close>

lemma scene_loop_requests:
  "r \<in> set (snd (scene_loop c en es cs ci rc script sn prev fin)) \<Longrightarrow>
   req_episode_number r = en \<and> req_context_summary r = cs \<and> req_character_info r = ci \<and>
   req_relevant_chunks r = rc"
proof (induction "Suc MAX_SCENES_PER_EPISODE - sn" arbitrary: sn script prev fin)
  case 0
  then have "\<not> (sn \<le> MAX_SCENES_PER_EPISODE \<and> \<not> fin)" by simp
  from scene_loop_exit [OF this] 0(2) show ?case by simp
next
  case (Suc m)
  let ?r = "scene_prompt en sn es ci cs rc prev"
  let ?g = "generate_scene c en sn es ci cs rc prev"
  let ?script = "(script @ [fst ?g]) @
           (if sn + 1 > MAX_SCENES_PER_EPISODE \<and> \<not> snd (snd ?g)
            then [''# SCENE LIMIT REACHED - EPISODE INCOMPLETE''] else [])"
  let ?rest = "scene_loop c en es cs ci rc ?script (sn + 1) (fst (snd ?g)) (snd (snd ?g))"
  from Suc.prems have ne: "snd (scene_loop c en es cs ci rc script sn prev fin) \<noteq> []" by auto
  from scene_loop_first_call [OF ne] have go: "sn \<le> MAX_SCENES_PER_EPISODE" "\<not> fin" by blast+
  have first: "req_episode_number ?r = en \<and> req_context_summary ?r = cs \<and>
     req_character_info ?r = ci \<and> req_relevant_chunks ?r = rc"
    by (simp add: scene_prompt_def)
  show ?case
  proof (cases "sublist ''Error generating Scene'' (fst ?g)")
    case True
    from Suc.prems have "r = ?r" unfolding scene_loop_error [OF go True] by simp
    with first show ?thesis by simp
  next
    case False
    obtain s calls where rest: "?rest = (s, calls)" by (cases ?rest)
    have whole: "scene_loop c en es cs ci rc script sn prev fin = (s, ?r # calls)"
      by (simp only: scene_loop_step [OF go False] rest apsnd_conv)
    from Suc.prems have "r = ?r \<or> r \<in> set calls" by (simp add: whole)
    then show ?thesis
    proof
      assume "r = ?r"
      with first show ?thesis by simp
    next
      assume "r \<in> set calls"
      then have in_rest: "r \<in> set (snd ?rest)" by (simp only: rest snd_conv)
      have m: "m = Suc MAX_SCENES_PER_EPISODE - (sn + 1)" using Suc.hyps(2) by simp
      from Suc.hyps(1) [OF m in_rest] show ?thesis .
    qed
  qed
qed

text \<open>
  Every scene request of \<^verbatim>\<open>generate_episode\<close> carries the three texts as the manager
  returns them: only the context summary depends on the episode number.
\<close>

lemma generate_episode_bundle:
  "generate_episode srv n pl = Inr (ret, calls, pl') \<Longrightarrow> r \<in> set calls \<Longrightarrow>
   get_context_summary (memory pl) n = Inr (req_context_summary r) \<and>
   req_character_info r = get_character_summaries (memory pl) \<and>
   (\<exists>query. req_relevant_chunks r = get_relevant_chunks srv (memory pl) query 5)"
proof -
  assume run: "generate_episode srv n pl = Inr (ret, calls, pl')" and r: "r \<in> set calls"
  from run r obtain plan where plan: "current_plan pl = Some plan"
    by (cases "current_plan pl") (auto simp: generate_episode_def)
  from run r plan obtain ep where
    ep: "find (\<lambda>ep. episode_no ep = PInt n) (master_outline plan) = Some ep"
    by (cases "find (\<lambda>ep. episode_no ep = PInt n) (master_outline plan)")
       (auto simp: generate_episode_def)
  from run r plan ep obtain cs where cs: "get_context_summary (memory pl) n = Inr cs"
    by (cases "get_context_summary (memory pl) n") (auto simp: generate_episode_def Let_def)
  let ?q = "get_or (episode_goal ep) []"
  let ?G = "generate_episode_script (scene_service srv) n ?q cs
              (get_character_summaries (memory pl)) (get_relevant_chunks srv (memory pl) ?q 5)"
  have calls: "calls = snd ?G"
    using run plan ep cs
    by (auto simp: generate_episode_def Let_def bind_result_def split: if_splits sum.splits)
  have G: "snd ?G = snd (scene_loop (scene_service srv) n ?q cs
              (get_character_summaries (memory pl)) (get_relevant_chunks srv (memory pl) ?q 5)
              [] 1 [] False)"
    by (simp add: generate_episode_script_def split_beta)
  from r have "r \<in> set (snd (scene_loop (scene_service srv) n ?q cs
              (get_character_summaries (memory pl)) (get_relevant_chunks srv (memory pl) ?q 5)
              [] 1 [] False))"
    by (simp only: calls G)
  from scene_loop_requests [OF this] cs show ?thesis by auto
qed

text \<open>
  On a generation that reaches the critique, the second component returned is the pair
  the refiner returned, and that pair is what is stored under the episode number.
\<close>

lemma generate_episode_stored:
  "generate_episode srv n pl = Inr ((Some s, Script_And_Critique s' t), calls, pl') \<Longrightarrow>
   s' = s \<and>
   get_episode_data pl' n = Some \<lparr>ep_script = s, ep_critique = Script_And_Critique s t\<rparr> \<and>
   (\<forall>m. m \<noteq> n \<longrightarrow> get_episode_data pl' m = get_episode_data pl m)"
proof -
  assume run: "generate_episode srv n pl = Inr ((Some s, Script_And_Critique s' t), calls, pl')"
  from run obtain plan where plan: "current_plan pl = Some plan"
    by (cases "current_plan pl") (auto simp: generate_episode_def)
  from run plan obtain ep where
    ep: "find (\<lambda>ep. episode_no ep = PInt n) (master_outline plan) = Some ep"
    by (cases "find (\<lambda>ep. episode_no ep = PInt n) (master_outline plan)")
       (auto simp: generate_episode_def)
  from run plan ep obtain cs where cs: "get_context_summary (memory pl) n = Inr cs"
    by (cases "get_context_summary (memory pl) n") (auto simp: generate_episode_def Let_def)
  from run plan ep cs have
    "s' = s \<and> generated_episodes pl' =
       AList.update n \<lparr>ep_script = s, ep_critique = Script_And_Critique s t\<rparr>
         (generated_episodes pl)"
    by (auto simp: generate_episode_def Let_def critique_episode_def
             split: if_splits option.splits)
  then show ?thesis by (simp add: get_episode_data_def update_conv')
qed

text \<open>
  Claim C5 against the code. \<^verbatim>\<open>generate_episode\<close> assigns to \<^verbatim>\<open>critique\<close> what
  \<^verbatim>\<open>critique_episode\<close> returns, which is the tuple of the script and the critique text.
  With services that answer every call, \<^verbatim>\<open>generate_episode(1)\<close> returns the script and,
  as its second component, that tuple, not the critique text; the entry stored under
  episode 1, replacing the earlier one, holds the same tuple, and \<^verbatim>\<open>get_episode_data(1)\<close>
  returns it.
\<close>

theorem generate_episode_critique_is_pair:
  "(case generate_episode example_services 1 example_pipeline of
      Inl e \<Rightarrow> False
    | Inr (ret, calls, pl) \<Rightarrow>
        ret = (Some (''INT. ROOM - DAY'' @ nl @ nl @ ''FADE OUT. # EPISODE END''),
               Script_And_Critique (''INT. ROOM - DAY'' @ nl @ nl @ ''FADE OUT. # EPISODE END'')
                 ''Looks good.'') \<and>
        get_episode_data pl 1 =
          Some \<lparr>ep_script = ''INT. ROOM - DAY'' @ nl @ nl @ ''FADE OUT. # EPISODE END'',
                ep_critique =
                  Script_And_Critique (''INT. ROOM - DAY'' @ nl @ nl @ ''FADE OUT. # EPISODE END'')
                    ''Looks good.''\<rparr>)"
  by code_simp

text \<open>
  Claim C1 against the code. The episodes have been generated once and episode 1 is
  generated again. Every scene request of episode 1 carries the character summaries of
  the whole store, with the state of episode 2, and the chunk of episode 2 that the
  similarity search returned; only the context summary stops before episode 1.
\<close>

theorem context_bundle_leaks_later_episodes:
  "(case generate_episode example_services 1 example_pipeline of
      Inl e \<Rightarrow> False
    | Inr (ret, calls, pl) \<Rightarrow>
        calls \<noteq> [] \<and>
        list_all (\<lambda>r.
          req_episode_number r = 1 \<and>
          req_character_info r = get_character_summaries (memory example_pipeline) \<and>
          sublist ''Episode 2: healed'' (req_character_info r) \<and>
          req_relevant_chunks r =
            ''Relevant Context 1 [From Episode 2, Chunk 0]:'' @ nl @ ''Ann is healed.'' @ nl \<and>
          req_context_summary r =
            full_summary [''Ann: Episode 0: Description: brave'']
              [''Plot: quest - Status as of Episode 0: planned'']) calls)"
  by code_simp

end
